theory Spec2Isabelle
  imports Complex_Main "HOL-Library.Sublist" "HOL-Library.List_Lexorder"
    "HOL-Library.Product_Lexorder"
begin

section \<open>Python text and values\<close>

text \<open>
  A Python \<open>str\<close> is a sequence of Unicode code points; it is modelled as a list of
  natural numbers, one per code point, so that \<open>length\<close> counts what Python's \<open>len\<close>
  counts. The values a cell of a data frame can hold are collected in \<open>pyval\<close>; only
  \<open>PyStr\<close> passes \<open>isinstance(name, str)\<close>.
\<close>

type_synonym ustr = "nat list"

datatype pyval =
    PyNone
  | PyNaN
  | PyBool bool
  | PyInt int
  | PyStr ustr
  | PyList "pyval list"

text \<open>
  \<open>str.maketrans({chr(0xFF01 + i): chr(0x21 + i) for i in range(94)})\<close> followed by
  \<open>str.translate\<close>: every code point \<open>0xFF01 + i\<close> with \<open>i < 94\<close> becomes \<open>0x21 + i\<close>.
\<close>

definition fullwidth_to_half :: "nat \<Rightarrow> nat" where
  "fullwidth_to_half c =
     (if 0xFF01 \<le> c \<and> c < 0xFF01 + 94 then c - 0xFF01 + 0x21 else c)"

definition translate_fullwidth :: "ustr \<Rightarrow> ustr" where
  "translate_fullwidth name = map fullwidth_to_half name"

text \<open>
  \<open>str.replace(old, new)\<close>: the occurrences of \<open>old\<close> are found from left to right and
  do not overlap. With an empty \<open>old\<close> Python puts \<open>new\<close> before every character and
  at the end.
\<close>

function py_replace :: "'a list \<Rightarrow> 'a list \<Rightarrow> 'a list \<Rightarrow> 'a list" where
  "py_replace old new [] = (if old = [] then new else [])"
| "py_replace old new (c # cs) =
     (if old = [] then new @ c # py_replace old new cs
      else if prefix old (c # cs)
        then new @ py_replace old new (drop (length old) (c # cs))
      else c # py_replace old new cs)"
  by pat_completeness auto
termination
  by (relation "measure (\<lambda>(old, new, s). length s)") auto

text \<open>The code points for which \<open>str.isspace\<close> holds; \<open>str.strip()\<close> removes them
  from both ends.\<close>

definition py_isspace :: "nat \<Rightarrow> bool" where
  "py_isspace c \<longleftrightarrow>
     (0x09 \<le> c \<and> c \<le> 0x0D) \<or> (0x1C \<le> c \<and> c \<le> 0x20) \<or> c = 0x85 \<or> c = 0xA0
     \<or> c = 0x1680 \<or> (0x2000 \<le> c \<and> c \<le> 0x200A) \<or> c = 0x2028 \<or> c = 0x2029
     \<or> c = 0x202F \<or> c = 0x205F \<or> c = 0x3000"

definition py_strip :: "ustr \<Rightarrow> ustr" where
  "py_strip name = rev (dropWhile py_isspace (rev (dropWhile py_isspace name)))"

section \<open>The name normalizer\<close>

text \<open>The literals of \<open>normalize_name\<close>: the ideographic space, the road character
  (U+9053) and the list of designators, full-width spelling before half-width.\<close>

definition ideographic_space :: nat where
  "ideographic_space = 0x3000"

definition road_char :: nat where
  "road_char = 0x9053"

definition suffixes :: "ustr list" where
  "suffixes =
     [[0xFF29, 0xFF23], [0x49, 0x43],
      [0xFF2A, 0xFF23, 0xFF34], [0x4A, 0x43, 0x54],
      [0xFF33, 0xFF29, 0xFF23], [0x53, 0x49, 0x43],
      [0xFF33, 0xFF21], [0x53, 0x41],
      [0xFF30, 0xFF21], [0x50, 0x41],
      [0xFF34, 0xFF22], [0x54, 0x42]]"

text \<open>
  \<open>normalize_name(name, is_route=False)\<close> of \<open>app.py\<close> and \<open>roadkill_app_simple.py\<close>.
  The first equation is the branch taken when \<open>isinstance(name, str)\<close> holds.
\<close>

fun normalize_name :: "pyval \<Rightarrow> bool \<Rightarrow> ustr" where
  "normalize_name (PyStr name) is_route =
     (let name = translate_fullwidth name;
          name = py_replace [ideographic_space] [0x20] name
      in if is_route then
           (let name = (if suffix [road_char] name
                        then py_replace [road_char] [] name else name)
            in py_strip name)
         else
           (let name = fold (\<lambda>sfx name. py_replace sfx [] name) suffixes name
            in py_strip name))"
| "normalize_name _ is_route = []"

text \<open>\<open>normalize_name(name)\<close> of \<open>roadkill-map.py\<close>: width folding and trimming only.\<close>

fun normalize_name_precut :: "pyval \<Rightarrow> ustr" where
  "normalize_name_precut (PyStr name) =
     (let name = translate_fullwidth name;
          name = py_replace [ideographic_space] [0x20] name
      in py_strip name)"
| "normalize_name_precut _ = []"

subsection \<open>Predicates on normalized text\<close>

text \<open>The full-width block folded by \<open>translate_fullwidth\<close>, text free of it and of the
  ideographic space, and text with no whitespace at either end.\<close>

definition is_fullwidth :: "nat \<Rightarrow> bool" where
  "is_fullwidth c \<longleftrightarrow> 0xFF01 \<le> c \<and> c \<le> 0xFF5E"

definition width_folded :: "ustr \<Rightarrow> bool" where
  "width_folded s \<longleftrightarrow> (\<forall>c\<in>set s. \<not> is_fullwidth c \<and> c \<noteq> ideographic_space)"

definition trimmed :: "ustr \<Rightarrow> bool" where
  "trimmed s \<longleftrightarrow> (s \<noteq> [] \<longrightarrow> \<not> py_isspace (hd s) \<and> \<not> py_isspace (last s))"

section \<open>Numbers as the data frames hold them\<close>

text \<open>
  A float is an IEEE 754 double: NaN (the marker of a missing value), an infinity, or a
  finite number, held as its real value. The two zeros are not told apart. The result
  of a multiplication or a division of doubles is the exact result rounded to the
  nearest double, ties to the even significand, and an infinity on overflow;
  \<open>round_double\<close> is that rounding. Comparisons with NaN are false. True division
  fails on a zero divisor as Python's does, and the other failures of the operations
  used by the code are \<open>AttributeError\<close> (a method looked up on a value that has
  none) and \<open>ValueError\<close> (\<open>chr\<close> out of range). \<open>float('inf')\<close>, the start value of
  the nearest-pair search, is the constructor \<open>Infinity\<close>.
\<close>

datatype pyfloat = NaN | PosInf | NegInf | Num real

datatype bound = Infinity | Finite real

datatype py_error = ZeroDivisionError | AttributeError | ValueError

text \<open>The number of binary digits of a natural number, and the powers of two.\<close>

fun bit_length :: "nat \<Rightarrow> nat" where
  "bit_length n = (if n = 0 then 0 else Suc (bit_length (n div 2)))"

declare bit_length.simps [simp del]

definition pow2 :: "int \<Rightarrow> real" where
  "pow2 k = (if 0 \<le> k then 2 ^ nat k else 1 / 2 ^ nat (- k))"

text \<open>The exponent \<open>e\<close> with \<open>2 ^ e \<le> \<bar>x\<bar> < 2 ^ (e + 1)\<close>, for \<open>x\<close> other than zero.\<close>

definition binary_exponent :: "real \<Rightarrow> int" where
  "binary_exponent x =
     (if 1 \<le> \<bar>x\<bar> then int (bit_length (nat \<lfloor>\<bar>x\<bar>\<rfloor>)) - 1
      else - int (bit_length (nat (\<lceil>1 / \<bar>x\<bar>\<rceil> - 1))))"

definition round_half_even :: "real \<Rightarrow> int" where
  "round_half_even q =
     (let f = \<lfloor>q\<rfloor>
      in if q - of_int f < 1 / 2 then f
         else if 1 / 2 < q - of_int f then f + 1
         else if even f then f else f + 1)"

text \<open>
  Rounding to binary64: 53 significant bits, the unit in the last place of a number of
  exponent \<open>e\<close> is \<open>2 ^ (e - 52)\<close>, exponents below \<open>-1022\<close> share the unit of the
  subnormal numbers, and a result of magnitude \<open>2 ^ 1024\<close> is an infinity.
\<close>

definition round_double :: "real \<Rightarrow> pyfloat" where
  "round_double x =
     (if x = 0 then Num 0
      else
        (let e = max (binary_exponent x) (- 1022);
             ulp = pow2 (e - 52);
             r = of_int (round_half_even (x / ulp)) * ulp
         in if 2 ^ 1024 \<le> r then PosInf
            else if r \<le> - (2 ^ 1024) then NegInf
            else Num r))"

definition notna :: "pyfloat \<Rightarrow> bool" where
  "notna v = (case v of NaN \<Rightarrow> False | _ \<Rightarrow> True)"

text \<open>Comparison of a float with an integer constant: exact, false for NaN.\<close>

definition float_gt :: "pyfloat \<Rightarrow> real \<Rightarrow> bool" where
  "float_gt v c =
     (case v of NaN \<Rightarrow> False | PosInf \<Rightarrow> True | NegInf \<Rightarrow> False | Num r \<Rightarrow> r > c)"

definition float_lt :: "pyfloat \<Rightarrow> real \<Rightarrow> bool" where
  "float_lt v c =
     (case v of NaN \<Rightarrow> False | PosInf \<Rightarrow> False | NegInf \<Rightarrow> True | Num r \<Rightarrow> r < c)"

definition below :: "real \<Rightarrow> bound \<Rightarrow> bool" where
  "below d m = (case m of Infinity \<Rightarrow> True | Finite r \<Rightarrow> d < r)"

text \<open>The product of two doubles.\<close>

fun float_mul :: "pyfloat \<Rightarrow> pyfloat \<Rightarrow> pyfloat" where
  "float_mul (Num a) (Num b) = round_double (a * b)"
| "float_mul NaN b = NaN"
| "float_mul a NaN = NaN"
| "float_mul PosInf (Num b) = (if b = 0 then NaN else if 0 < b then PosInf else NegInf)"
| "float_mul NegInf (Num b) = (if b = 0 then NaN else if 0 < b then NegInf else PosInf)"
| "float_mul (Num a) PosInf = (if a = 0 then NaN else if 0 < a then PosInf else NegInf)"
| "float_mul (Num a) NegInf = (if a = 0 then NaN else if 0 < a then NegInf else PosInf)"
| "float_mul PosInf PosInf = PosInf"
| "float_mul PosInf NegInf = NegInf"
| "float_mul NegInf PosInf = NegInf"
| "float_mul NegInf NegInf = PosInf"

text \<open>
  \<open>a / b\<close> on floats: Python raises \<open>ZeroDivisionError\<close> for a zero divisor whatever
  the dividend; otherwise the quotient is the IEEE one. An integer dividend is first
  converted to the nearest double (\<open>float_of_count\<close>; a count is a group size).
\<close>

fun py_truediv :: "pyfloat \<Rightarrow> pyfloat \<Rightarrow> py_error + pyfloat" where
  "py_truediv a (Num b) =
     (if b = 0 then Inl ZeroDivisionError
      else (case a of
              NaN \<Rightarrow> Inr NaN
            | PosInf \<Rightarrow> Inr (if 0 < b then PosInf else NegInf)
            | NegInf \<Rightarrow> Inr (if 0 < b then NegInf else PosInf)
            | Num x \<Rightarrow> Inr (round_double (x / b))))"
| "py_truediv a NaN = Inr NaN"
| "py_truediv a PosInf = (case a of Num x \<Rightarrow> Inr (Num 0) | _ \<Rightarrow> Inr NaN)"
| "py_truediv a NegInf = (case a of Num x \<Rightarrow> Inr (Num 0) | _ \<Rightarrow> Inr NaN)"

definition float_of_count :: "nat \<Rightarrow> pyfloat" where
  "float_of_count n = round_double (real n)"

section \<open>The normalizer with its failure points\<close>

text \<open>
  The same two functions with every operation that can raise written out: \<open>chr\<close>
  raises \<open>ValueError\<close> outside the code space, and \<open>name.translate\<close>, the first
  method looked up on the argument, raises \<open>AttributeError\<close> when the argument has no
  such method, which is the case for every value that is not a string. The later
  methods are looked up on the result of \<open>translate\<close>, a string.
\<close>

definition isinstance_str :: "pyval \<Rightarrow> bool" where
  "isinstance_str v = (case v of PyStr s \<Rightarrow> True | _ \<Rightarrow> False)"

definition py_chr :: "nat \<Rightarrow> py_error + nat" where
  "py_chr i = (if i < 0x110000 then Inr i else Inl ValueError)"

text \<open>The dictionary comprehension \<open>{chr(0xFF01 + i): chr(0x21 + i) for i in ...}\<close>.\<close>

fun maketrans_table :: "nat list \<Rightarrow> py_error + (nat \<times> nat) list" where
  "maketrans_table [] = Inr []"
| "maketrans_table (i # rest) =
     (case py_chr (0xFF01 + i) of
        Inl e \<Rightarrow> Inl e
      | Inr k \<Rightarrow>
          (case py_chr (0x21 + i) of
             Inl e \<Rightarrow> Inl e
           | Inr v \<Rightarrow>
               (case maketrans_table rest of
                  Inl e \<Rightarrow> Inl e
                | Inr table \<Rightarrow> Inr ((k, v) # table))))"

definition str_translate :: "pyval \<Rightarrow> (nat \<times> nat) list \<Rightarrow> py_error + ustr" where
  "str_translate name table =
     (case name of
        PyStr s \<Rightarrow> Inr (map (\<lambda>c. case map_of table c of None \<Rightarrow> c | Some d \<Rightarrow> d) s)
      | _ \<Rightarrow> Inl AttributeError)"

definition normalize_name_checked :: "pyval \<Rightarrow> bool \<Rightarrow> py_error + ustr" where
  "normalize_name_checked name is_route =
     (if \<not> isinstance_str name then Inr []
      else
        (case maketrans_table [0..<94] of
           Inl e \<Rightarrow> Inl e
         | Inr table \<Rightarrow>
             (case str_translate name table of
                Inl e \<Rightarrow> Inl e
              | Inr name \<Rightarrow>
                  (let name = py_replace [ideographic_space] [0x20] name
                   in if is_route then
                        (let name = (if suffix [road_char] name
                                     then py_replace [road_char] [] name else name)
                         in Inr (py_strip name))
                      else
                        (let name = fold (\<lambda>sfx name. py_replace sfx [] name) suffixes name
                         in Inr (py_strip name))))))"

definition normalize_name_precut_checked :: "pyval \<Rightarrow> py_error + ustr" where
  "normalize_name_precut_checked name =
     (if \<not> isinstance_str name then Inr []
      else
        (case maketrans_table [0..<94] of
           Inl e \<Rightarrow> Inl e
         | Inr table \<Rightarrow>
             (case str_translate name table of
                Inl e \<Rightarrow> Inl e
              | Inr name \<Rightarrow>
                  (let name = py_replace [ideographic_space] [0x20] name
                   in Inr (py_strip name)))))"

section \<open>Aggregation of incident records (\<open>app.py\<close>)\<close>

text \<open>
  An incident record after \<open>load_data\<close>: the columns the aggregation reads. Rows with
  a missing route name, section or length were dropped by \<open>dropna\<close>, so the three
  fields always hold a value. The other columns only feed the filters.
\<close>

record incident =
  route_name :: ustr
  section_name :: ustr
  length_km :: real

record section_count =
  sc_route :: ustr
  sc_section :: ustr
  sc_count :: nat
  sc_length :: real
  start_norm :: ustr
  end_norm :: ustr

definition separator :: nat where
  "separator = 0x301C"

text \<open>\<open>str.split(sep)\<close> for a separator of one character.\<close>

fun py_split :: "nat \<Rightarrow> ustr \<Rightarrow> ustr list" where
  "py_split sep [] = [[]]"
| "py_split sep (c # cs) =
     (if c = sep then [] # py_split sep cs
      else (case py_split sep cs of [] \<Rightarrow> [[c]] | p # ps \<Rightarrow> (c # p) # ps))"

text \<open>
  \<open>key_cols = [route, section]\<close>: the group key is the raw text of the two columns.
  \<open>groupby\<close> lists the distinct keys in sorted order; \<open>size\<close> counts the rows of a
  group and \<open>first\<close> takes the length of its first row.
\<close>

definition key_cols :: "incident \<Rightarrow> ustr \<times> ustr" where
  "key_cols r = (route_name r, section_name r)"

definition group_keys :: "incident list \<Rightarrow> (ustr \<times> ustr) list" where
  "group_keys df = sort (remdups (map key_cols df))"

definition group_rows :: "incident list \<Rightarrow> ustr \<times> ustr \<Rightarrow> incident list" where
  "group_rows df k = filter (\<lambda>r. key_cols r = k) df"

definition first_length :: "incident list \<Rightarrow> real" where
  "first_length g = (case g of [] \<Rightarrow> 0 | r # rs \<Rightarrow> length_km r)"

text \<open>
  \<open>str.split('\<sim>', expand=True)\<close> gives as many columns as the longest split; a row
  with fewer parts holds \<open>None\<close> in the others. Column 1 is read only when it exists.
\<close>

definition split_cell :: "ustr list \<Rightarrow> nat \<Rightarrow> pyval" where
  "split_cell parts n = (if n < length parts then PyStr (parts ! n) else PyNone)"

definition has_column :: "ustr list list \<Rightarrow> nat \<Rightarrow> bool" where
  "has_column split_sections n = (\<exists>parts\<in>set split_sections. n < length parts)"

definition section_counts :: "incident list \<Rightarrow> section_count list" where
  "section_counts filtered_df =
     (let keys = group_keys filtered_df;
          split_sections = map (\<lambda>k. py_split separator (snd k)) keys
      in map (\<lambda>k.
           \<lparr> sc_route = fst k, sc_section = snd k,
             sc_count = length (group_rows filtered_df k),
             sc_length = first_length (group_rows filtered_df k),
             start_norm = normalize_name (split_cell (py_split separator (snd k)) 0) False,
             end_norm = (if has_column split_sections 1
                         then normalize_name (split_cell (py_split separator (snd k)) 1) False
                         else []) \<rparr>) keys)"

section \<open>Segment resolution (\<open>get_map_data\<close> of \<open>app.py\<close>)\<close>

text \<open>
  An interchange is a point with a longitude \<open>pt_x\<close> and a latitude \<open>pt_y\<close>. The
  geometry of a route, its distance to a point (shapely's \<open>distance\<close>, in degrees),
  its truth value (shapely: not empty) and the great-circle distance of the
  \<open>haversine\<close> package are library code; the model takes them as the parameters
  \<open>dst\<close>, \<open>truthy\<close> and \<open>hav\<close>. The two indices are dictionaries, modelled as
  association lists in insertion order.
\<close>

record point =
  pt_x :: real
  pt_y :: real

record map_row =
  mr_route :: ustr
  mr_section :: ustr
  mr_count :: nat
  mr_length :: real
  start_lon :: real
  start_lat :: real
  end_lon :: real
  end_lat :: real

definition DISTANCE_THRESHOLD_M :: real where
  "DISTANCE_THRESHOLD_M = 3000"

text \<open>\<open>unique()\<close>: the distinct values in order of first appearance.\<close>

definition py_unique :: "'a list \<Rightarrow> 'a list" where
  "py_unique xs = rev (remdups (rev xs))"

text \<open>The loop that fills \<open>route_name_map\<close>: the first reference key that contains the
  ROUTE-normalized name, if any.\<close>

definition route_name_map ::
  "ustr list \<Rightarrow> ustr list \<Rightarrow> (ustr \<rightharpoonup> ustr)" where
  "route_name_map csv_routes_raw shp_routes_raw =
     fold (\<lambda>csv_name m.
            case find (\<lambda>shp_name. sublist (normalize_name (PyStr csv_name) True) shp_name)
                   shp_routes_raw of
              None \<Rightarrow> m
            | Some shp_name \<Rightarrow> m(csv_name \<mapsto> shp_name))
          csv_routes_raw Map.empty"

definition dict_get_list :: "('k \<times> 'v list) list \<Rightarrow> 'k \<Rightarrow> 'v list" where
  "dict_get_list d k = (case map_of d k of None \<Rightarrow> [] | Some v \<Rightarrow> v)"

text \<open>The plausibility filter: \<open>p.distance(geom) * 111000 < DISTANCE_THRESHOLD_M\<close>, a
  product of doubles compared with the integer threshold.\<close>

definition valid_candidates ::
  "(point \<Rightarrow> 'g \<Rightarrow> pyfloat) \<Rightarrow> 'g \<Rightarrow> point list \<Rightarrow> point list" where
  "valid_candidates dst target_route_geom candidates =
     filter (\<lambda>p. float_lt (float_mul (dst p target_route_geom) (Num 111000))
                   DISTANCE_THRESHOLD_M) candidates"

text \<open>The nearest-pair loop over \<open>product(valid_starts, valid_ends)\<close>; the state is
  \<open>(min_dist, best_pair)\<close>, started at \<open>(float('inf'), None)\<close>.\<close>

definition pair_dist ::
  "(real \<times> real \<Rightarrow> real \<times> real \<Rightarrow> real) \<Rightarrow> point \<times> point \<Rightarrow> real" where
  "pair_dist hav pr =
     hav (pt_y (fst pr), pt_x (fst pr)) (pt_y (snd pr), pt_x (snd pr))"

definition best_pair_step ::
  "(real \<times> real \<Rightarrow> real \<times> real \<Rightarrow> real) \<Rightarrow> point \<times> point \<Rightarrow>
   bound \<times> (point \<times> point) option \<Rightarrow> bound \<times> (point \<times> point) option" where
  "best_pair_step hav pr st =
     (let dist = pair_dist hav pr
      in if dist > 0 \<and> below dist (fst st) then (Finite dist, Some pr) else st)"

definition select_best_pair ::
  "(real \<times> real \<Rightarrow> real \<times> real \<Rightarrow> real) \<Rightarrow> point list \<Rightarrow> point list \<Rightarrow>
   (point \<times> point) option" where
  "select_best_pair hav valid_starts valid_ends =
     snd (fold (best_pair_step hav) (List.product valid_starts valid_ends) (Infinity, None))"

text \<open>One pass of the row loop: \<open>None\<close> where the source executes \<open>continue\<close> or
  finds no pair, otherwise the dictionary appended to \<open>map_data\<close>.\<close>

definition resolve_row ::
  "(real \<times> real \<Rightarrow> real \<times> real \<Rightarrow> real) \<Rightarrow> (point \<Rightarrow> 'g \<Rightarrow> pyfloat) \<Rightarrow> ('g \<Rightarrow> bool) \<Rightarrow>
   (ustr \<times> point list) list \<Rightarrow> (ustr \<times> 'g) list \<Rightarrow> (ustr \<rightharpoonup> ustr) \<Rightarrow>
   section_count \<Rightarrow> map_row option" where
  "resolve_row hav dst truthy ic_locations route_geometries name_map row =
     (case name_map (sc_route row) of
        None \<Rightarrow> None
      | Some official_route_name \<Rightarrow>
          if official_route_name = [] then None
          else (case map_of route_geometries official_route_name of
             None \<Rightarrow> None
           | Some target_route_geom \<Rightarrow>
               if \<not> truthy target_route_geom then None
               else
                 (let start_candidates = dict_get_list ic_locations (start_norm row);
                      end_candidates = dict_get_list ic_locations (end_norm row)
                  in if start_candidates = [] \<or> end_candidates = [] then None
                     else
                       (let valid_starts = valid_candidates dst target_route_geom start_candidates;
                            valid_ends = valid_candidates dst target_route_geom end_candidates
                        in if valid_starts = [] \<or> valid_ends = [] then None
                           else
                             (case select_best_pair hav valid_starts valid_ends of
                                None \<Rightarrow> None
                              | Some best_pair \<Rightarrow>
                                  Some \<lparr> mr_route = sc_route row, mr_section = sc_section row,
                                         mr_count = sc_count row, mr_length = sc_length row,
                                         start_lon = pt_x (fst best_pair),
                                         start_lat = pt_y (fst best_pair),
                                         end_lon = pt_x (snd best_pair),
                                         end_lat = pt_y (snd best_pair) \<rparr>)))))"

definition get_map_data ::
  "(real \<times> real \<Rightarrow> real \<times> real \<Rightarrow> real) \<Rightarrow> (point \<Rightarrow> 'g \<Rightarrow> pyfloat) \<Rightarrow> ('g \<Rightarrow> bool) \<Rightarrow>
   section_count list \<Rightarrow> (ustr \<times> point list) list \<Rightarrow> (ustr \<times> 'g) list \<Rightarrow> map_row list" where
  "get_map_data hav dst truthy section_counts_df ic_locations route_geometries =
     (let csv_routes_raw = py_unique (map sc_route section_counts_df);
          shp_routes_raw = map fst route_geometries;
          name_map = route_name_map csv_routes_raw shp_routes_raw
      in List.map_filter
           (resolve_row hav dst truthy ic_locations route_geometries name_map)
           section_counts_df)"

section \<open>Density\<close>

text \<open>
  \<open>row['count'] / row['length'] if row['length'] > 0 else 0\<close> of \<open>app.py\<close>, and the
  variant of \<open>roadkill-map.py\<close> that asks \<open>pd.notna\<close> first.
\<close>

definition count_per_km :: "nat \<Rightarrow> pyfloat \<Rightarrow> py_error + pyfloat" where
  "count_per_km count len =
     (if float_gt len 0 then py_truediv (float_of_count count) len else Inr (Num 0))"

definition count_per_km_precut :: "nat \<Rightarrow> pyfloat \<Rightarrow> py_error + pyfloat" where
  "count_per_km_precut count len =
     (if notna len \<and> float_gt len 0 then py_truediv (float_of_count count) len
      else Inr (Num 0))"

section \<open>The pre-cut geometry variant (\<open>roadkill-map.py\<close>)\<close>

text \<open>
  A reference segment carries the names of its two interchanges (text after
  \<open>astype(str)\<close>) and a geometry, which may be missing. An incident row carries its
  display route name, its length and \<open>section_norm\<close>, the normalized section label.
\<close>

record 'g ref_segment =
  start_IC :: ustr
  end_IC :: ustr
  geometry :: "'g option"

record precut_incident =
  pi_route :: ustr
  pi_length :: real
  section_norm :: ustr

record precut_count =
  pc_section_norm :: ustr
  pc_count :: nat
  pc_length :: real
  pc_route :: ustr

record 'g precut_row =
  pr_segment :: "'g ref_segment"
  pr_count :: nat
  pr_length :: pyfloat
  pr_route :: "ustr option"

definition section_norm_key_1 :: "'g ref_segment \<Rightarrow> ustr" where
  "section_norm_key_1 seg =
     normalize_name_precut (PyStr (start_IC seg)) @ [separator]
       @ normalize_name_precut (PyStr (end_IC seg))"

definition section_norm_key_2 :: "'g ref_segment \<Rightarrow> ustr" where
  "section_norm_key_2 seg =
     normalize_name_precut (PyStr (end_IC seg)) @ [separator]
       @ normalize_name_precut (PyStr (start_IC seg))"

text \<open>\<open>groupby('section_norm')\<close> with \<open>size\<close> and \<open>first\<close>; an empty frame gives an
  empty table.\<close>

definition precut_section_counts :: "precut_incident list \<Rightarrow> precut_count list" where
  "precut_section_counts filtered_df =
     map (\<lambda>k. let g = filter (\<lambda>r. section_norm r = k) filtered_df
              in \<lparr> pc_section_norm = k, pc_count = length g,
                   pc_length = (case g of [] \<Rightarrow> 0 | r # rs \<Rightarrow> pi_length r),
                   pc_route = (case g of [] \<Rightarrow> [] | r # rs \<Rightarrow> pi_route r) \<rparr>)
         (sort (remdups (map section_norm filtered_df)))"

text \<open>
  A left merge on a key: the matching row of the right table, if any (the keys of the
  right table are distinct, so a left row matches at most one). \<open>fillna\<close> takes the
  value of the first merge where it is present and that of the second otherwise.
\<close>

definition merge_left :: "precut_count list \<Rightarrow> ustr \<Rightarrow> precut_count option" where
  "merge_left counts k = find (\<lambda>c. pc_section_norm c = k) counts"

definition fillna :: "'a option \<Rightarrow> 'a option \<Rightarrow> 'a option" where
  "fillna a b = (case a of None \<Rightarrow> b | Some v \<Rightarrow> Some v)"

definition join_segment :: "precut_count list \<Rightarrow> 'g ref_segment \<Rightarrow> 'g precut_row" where
  "join_segment counts seg =
     (let map_gdf_1 = merge_left counts (section_norm_key_1 seg);
          map_gdf_2 = merge_left counts (section_norm_key_2 seg)
      in \<lparr> pr_segment = seg,
           pr_count = (case fillna (map_option pc_count map_gdf_1) (map_option pc_count map_gdf_2)
                       of None \<Rightarrow> 0 | Some n \<Rightarrow> n),
           pr_length = (case fillna (map_option pc_length map_gdf_1)
                                    (map_option pc_length map_gdf_2)
                        of None \<Rightarrow> NaN | Some l \<Rightarrow> Num l),
           pr_route = fillna (map_option pc_route map_gdf_1) (map_option pc_route map_gdf_2) \<rparr>)"

text \<open>The joined frame after \<open>dropna(subset=['geometry'])\<close>.\<close>

definition map_gdf :: "precut_count list \<Rightarrow> 'g ref_segment list \<Rightarrow> 'g precut_row list" where
  "map_gdf counts sections_gdf =
     filter (\<lambda>row. geometry (pr_segment row) \<noteq> None) (map (join_segment counts) sections_gdf)"



subsection \<open>Derived columns\<close>

text \<open>The four coordinates of a map row, and the density column of each variant
  (\<open>map_df.apply(...)\<close> in \<open>app.py\<close>, \<open>map_gdf.apply(...)\<close> in \<open>roadkill-map.py\<close>).\<close>

definition endpoints :: "map_row \<Rightarrow> real \<times> real \<times> real \<times> real" where
  "endpoints r = (start_lon r, start_lat r, end_lon r, end_lat r)"

definition map_row_density :: "map_row \<Rightarrow> py_error + pyfloat" where
  "map_row_density row = count_per_km (mr_count row) (Num (mr_length row))"

definition precut_row_density :: "'g precut_row \<Rightarrow> py_error + pyfloat" where
  "precut_row_density row = count_per_km_precut (pr_count row) (pr_length row)"

section \<open>Example data\<close>

text \<open>
  Concrete inputs for the evaluations below, after the end-to-end scenario of the
  specification: the route U+5E38 U+78D0 U+9053, the section from the Mito to the Naka
  interchange, and a reference route whose normalized key contains the normalized
  route name. \<open>scenario_hav\<close>, \<open>scenario_dst\<close> and \<open>scenario_truthy\<close> stand in for
  the library functions: a distance that is zero exactly between equal coordinates, the
  distance zero for a vertex of the line and one degree otherwise, and non-emptiness.
\<close>

definition scenario_hav :: "real \<times> real \<Rightarrow> real \<times> real \<Rightarrow> real" where
  "scenario_hav a b = 111 * (\<bar>fst a - fst b\<bar> + \<bar>snd a - snd b\<bar>)"

definition scenario_dst :: "point \<Rightarrow> point list \<Rightarrow> pyfloat" where
  "scenario_dst p g = (if p \<in> set g then Num 0 else Num 1)"

definition scenario_truthy :: "point list \<Rightarrow> bool" where
  "scenario_truthy g \<longleftrightarrow> g \<noteq> []"

definition mito :: point where "mito = \<lparr> pt_x = 140, pt_y = 36 \<rparr>"

definition naka :: point where "naka = \<lparr> pt_x = 141, pt_y = 37 \<rparr>"

definition origin :: point where "origin = \<lparr> pt_x = 0, pt_y = 0 \<rparr>"

definition east :: point where "east = \<lparr> pt_x = 1, pt_y = 0 \<rparr>"

definition north :: point where "north = \<lparr> pt_x = 0, pt_y = 1 \<rparr>"

definition scenario_ic_locations :: "(ustr \<times> point list) list" where
  "scenario_ic_locations = [([0x6C34, 0x6238], [mito]), ([0x90A3, 0x73C2], [naka])]"

definition scenario_route_geometries :: "(ustr \<times> point list) list" where
  "scenario_route_geometries = [([0x5E38, 0x78D0, 0x81EA, 0x52D5, 0x8ECA], [mito, naka])]"

definition scenario_incident :: incident where
  "scenario_incident = \<lparr> route_name = [0x5E38, 0x78D0, 0x9053],
      section_name = [0x6C34, 0x6238, 0x49, 0x43, 0x301C, 0x90A3, 0x73C2, 0x49, 0x43],
      length_km = 10 \<rparr>"

definition scenario_incident_wide :: incident where
  "scenario_incident_wide = \<lparr> route_name = [0x5E38, 0x78D0, 0x9053],
      section_name = [0x6C34, 0x6238, 0xFF29, 0xFF23, 0x301C, 0x90A3, 0x73C2, 0xFF29, 0xFF23],
      length_km = 10 \<rparr>"

definition scenario_segment_mito_naka :: "point list ref_segment" where
  "scenario_segment_mito_naka =
     \<lparr> start_IC = [0x6C34, 0x6238, 0x49, 0x43], end_IC = [0x90A3, 0x73C2, 0x49, 0x43],
       geometry = Some [mito, naka] \<rparr>"

definition scenario_segment_naka_hitachi :: "point list ref_segment" where
  "scenario_segment_naka_hitachi =
     \<lparr> start_IC = [0x90A3, 0x73C2, 0x49, 0x43], end_IC = [0x65E5, 0x7ACB, 0x49, 0x43],
       geometry = Some [naka] \<rparr>"

definition scenario_segment_naka_mito :: "point list ref_segment" where
  "scenario_segment_naka_mito =
     \<lparr> start_IC = [0x90A3, 0x73C2, 0x49, 0x43], end_IC = [0x6C34, 0x6238, 0x49, 0x43],
       geometry = Some [naka, mito] \<rparr>"

definition scenario_segment_no_geometry :: "point list ref_segment" where
  "scenario_segment_no_geometry =
     \<lparr> start_IC = [0x90A3, 0x73C2, 0x49, 0x43], end_IC = [0x65E5, 0x7ACB, 0x49, 0x43],
       geometry = None \<rparr>"

definition scenario_precut_incident_forward :: precut_incident where
  "scenario_precut_incident_forward =
     \<lparr> pi_route = [0x5E38, 0x78D0, 0x9053], pi_length = 10,
       section_norm = normalize_name_precut
         (PyStr [0x6C34, 0x6238, 0x49, 0x43, 0x301C, 0x90A3, 0x73C2, 0x49, 0x43]) \<rparr>"

definition scenario_precut_incident :: precut_incident where
  "scenario_precut_incident =
     \<lparr> pi_route = [0x5E38, 0x78D0, 0x9053], pi_length = 10,
       section_norm = normalize_name_precut
         (PyStr [0x90A3, 0x73C2, 0x49, 0x43, 0x301C, 0x6C34, 0x6238, 0x49, 0x43]) \<rparr>"


section \<open>Properties of the normalizer\<close>

lemma fullwidth_to_half_not_fullwidth: "\<not> is_fullwidth (fullwidth_to_half c)"
  unfolding is_fullwidth_def fullwidth_to_half_def by (cases "0xFF01 \<le> c \<and> c < 0xFF01 + 94") auto

lemma fullwidth_to_half_id: "\<not> is_fullwidth c \<Longrightarrow> fullwidth_to_half c = c"
  unfolding is_fullwidth_def fullwidth_to_half_def by auto

lemma translate_fullwidth_id: "\<forall>c\<in>set s. \<not> is_fullwidth c \<Longrightarrow> translate_fullwidth s = s"
  by (simp add: translate_fullwidth_def fullwidth_to_half_id map_idI)

lemma set_py_replace: "set (py_replace old new s) \<subseteq> set s \<union> set new"
proof (induction old new s rule: py_replace.induct)
  case (1 old new)
  then show ?case by auto
next
  case (2 old new c cs)
  have "set (drop (length old) (c # cs)) \<subseteq> set (c # cs)" by (rule set_drop_subset)
  with 2 show ?case by (auto split: if_splits)
qed

lemma py_replace_single: "py_replace [a] new s = concat (map (\<lambda>c. if c = a then new else [c]) s)"
  by (induction s) auto

lemma py_replace_single_notin: "a \<notin> set new \<Longrightarrow> a \<notin> set (py_replace [a] new s)"
  by (auto simp: py_replace_single split: if_splits)

lemma py_replace_absent: "old \<noteq> [] \<Longrightarrow> \<not> sublist old s \<Longrightarrow> py_replace old new s = s"
proof (induction s)
  case Nil
  then show ?case by simp
next
  case (Cons c cs)
  then show ?case by (simp add: sublist_Cons_right)
qed

lemma length_py_replace_le: "old \<noteq> [] \<Longrightarrow> length (py_replace old [] s) \<le> length s"
proof (induction old "[]::'a list" s rule: py_replace.induct)
  case (1 old)
  then show ?case by simp
next
  case (2 old c cs)
  then show ?case by (auto simp: le_Suc_eq)
qed

lemma length_py_replace_less:
  "old \<noteq> [] \<Longrightarrow> sublist old s \<Longrightarrow> length (py_replace old [] s) < length s"
proof (induction s)
  case Nil
  then show ?case by simp
next
  case (Cons c cs)
  show ?case
  proof (cases "prefix old (c # cs)")
    case True
    have "length (py_replace old [] (drop (length old) (c # cs))) \<le> length (drop (length old) (c # cs))"
      using Cons.prems(1) by (rule length_py_replace_le)
    with True Cons.prems(1) show ?thesis by (cases old) auto
  next
    case False
    with Cons show ?thesis by (simp add: sublist_Cons_right)
  qed
qed

lemma set_py_strip: "set (py_strip s) \<subseteq> set s"
  unfolding py_strip_def by (auto dest!: set_dropWhileD)

lemma length_py_strip: "length (py_strip s) \<le> length s"
proof -
  have "length (dropWhile py_isspace (rev (dropWhile py_isspace s))) \<le> length (rev (dropWhile py_isspace s))"
    by (rule length_dropWhile_le)
  also have "\<dots> \<le> length s" by (simp add: length_dropWhile_le)
  finally show ?thesis by (simp add: py_strip_def)
qed

lemma trimmed_py_strip: "trimmed (py_strip s)"
proof -
  define ys where "ys = dropWhile py_isspace s"
  define zs where "zs = dropWhile py_isspace (rev ys)"
  have eq: "py_strip s = rev zs" by (simp add: py_strip_def ys_def zs_def)
  show ?thesis
  proof (cases "zs = []")
    case True
    then show ?thesis by (simp add: eq trimmed_def)
  next
    case False
    then have l: "\<not> py_isspace (hd zs)" unfolding zs_def by (rule hd_dropWhile)
    from False have ysne: "ys \<noteq> []" by (auto simp: zs_def)
    then have h: "\<not> py_isspace (hd ys)" unfolding ys_def by (rule hd_dropWhile)
    obtain ps where "rev ys = ps @ zs"
      unfolding zs_def by (metis takeWhile_dropWhile_id)
    with False have "last zs = last (rev ys)" by simp
    also have "\<dots> = hd ys" using ysne by (simp add: last_rev)
    finally have "last zs = hd ys" .
    with l h False show ?thesis by (simp add: eq trimmed_def hd_rev last_rev)
  qed
qed

lemma py_strip_id: "trimmed s \<Longrightarrow> py_strip s = s"
proof (cases "s = []")
  case True
  then show ?thesis by (simp add: py_strip_def)
next
  case False
  assume "trimmed s"
  with False have h: "\<not> py_isspace (hd s)" and l: "\<not> py_isspace (last s)"
    by (simp_all add: trimmed_def)
  from False h have 1: "dropWhile py_isspace s = s" by (cases s) auto
  from False l have 2: "dropWhile py_isspace (rev s) = rev s"
    by (cases "rev s") (auto simp: last_rev dest: arg_cong[where f=hd] simp: hd_rev)
  show ?thesis by (simp add: py_strip_def 1 2)
qed

lemma set_fold_py_replace:
  "set (fold (\<lambda>sfx name. py_replace sfx [] name) sfxs s) \<subseteq> set s"
proof (induction sfxs arbitrary: s)
  case Nil
  then show ?case by simp
next
  case (Cons a sfxs)
  have "set (py_replace a [] s) \<subseteq> set s" using set_py_replace[of a "[]" s] by simp
  with Cons[of "py_replace a [] s"] show ?case by auto
qed

lemma fold_py_replace_absent:
  "\<forall>sfx\<in>set sfxs. sfx \<noteq> [] \<and> \<not> sublist sfx s \<Longrightarrow>
   fold (\<lambda>sfx name. py_replace sfx [] name) sfxs s = s"
  by (induction sfxs) (simp_all add: py_replace_absent)

lemma length_fold_py_replace_le:
  "\<forall>sfx\<in>set sfxs. sfx \<noteq> [] \<Longrightarrow>
   length (fold (\<lambda>sfx name. py_replace sfx [] name) sfxs s) \<le> length s"
proof (induction sfxs arbitrary: s)
  case Nil
  then show ?case by simp
next
  case (Cons a sfxs)
  have "length (fold (\<lambda>sfx name. py_replace sfx [] name) sfxs (py_replace a [] s))
        \<le> length (py_replace a [] s)" using Cons by simp
  also have "\<dots> \<le> length s" using Cons.prems by (simp add: length_py_replace_le)
  finally show ?case by simp
qed

lemma length_fold_py_replace_less:
  "\<forall>sfx\<in>set sfxs. sfx \<noteq> [] \<Longrightarrow> \<exists>sfx\<in>set sfxs. sublist sfx s \<Longrightarrow>
   length (fold (\<lambda>sfx name. py_replace sfx [] name) sfxs s) < length s"
proof (induction sfxs arbitrary: s)
  case Nil
  then show ?case by simp
next
  case (Cons a sfxs)
  from Cons.prems have ne: "a \<noteq> []" and nes: "\<forall>sfx\<in>set sfxs. sfx \<noteq> []" by simp_all
  show ?case
  proof (cases "sublist a s")
    case True
    have "length (fold (\<lambda>sfx name. py_replace sfx [] name) sfxs (py_replace a [] s))
          \<le> length (py_replace a [] s)" using nes by (rule length_fold_py_replace_le)
    also have "\<dots> < length s" using ne True by (rule length_py_replace_less)
    finally show ?thesis by simp
  next
    case False
    with ne have id: "py_replace a [] s = s" by (simp add: py_replace_absent)
    from False Cons.prems(2) have "\<exists>sfx\<in>set sfxs. sublist sfx s" by auto
    with Cons.IH[OF nes] id show ?thesis by simp
  qed
qed

lemma suffixes_nonempty: "\<forall>sfx\<in>set suffixes. sfx \<noteq> []"
  by (simp add: suffixes_def)

lemma folded_space: "width_folded (py_replace [ideographic_space] [0x20] (translate_fullwidth s))"
proof -
  have a: "\<forall>c\<in>set (translate_fullwidth s). \<not> is_fullwidth c"
    by (simp add: translate_fullwidth_def fullwidth_to_half_not_fullwidth)
  have b: "\<not> is_fullwidth 0x20" by (simp add: is_fullwidth_def)
  have c: "ideographic_space \<notin> set (py_replace [ideographic_space] [0x20] (translate_fullwidth s))"
    by (rule py_replace_single_notin) (simp add: ideographic_space_def)
  have d: "set (py_replace [ideographic_space] [0x20] (translate_fullwidth s))
           \<subseteq> set (translate_fullwidth s) \<union> {0x20}"
    using set_py_replace[of "[ideographic_space]" "[0x20]" "translate_fullwidth s"] by simp
  show ?thesis unfolding width_folded_def using a b c d by blast
qed

lemma width_folded_subset: "set t \<subseteq> set s \<Longrightarrow> width_folded s \<Longrightarrow> width_folded t"
  by (auto simp: width_folded_def)

lemma folded_space_id:
  "width_folded s \<Longrightarrow> py_replace [ideographic_space] [0x20] (translate_fullwidth s) = s"
proof -
  assume w: "width_folded s"
  then have "translate_fullwidth s = s" by (simp add: width_folded_def translate_fullwidth_id)
  moreover from w have "\<not> sublist [ideographic_space] s"
    by (auto simp: width_folded_def sublist_def)
  ultimately show ?thesis by (simp add: py_replace_absent)
qed

lemma normalize_name_route_subset:
  "set (normalize_name (PyStr s) True)
     \<subseteq> set (py_replace [ideographic_space] [0x20] (translate_fullwidth s))"
proof -
  define u where "u = py_replace [ideographic_space] [0x20] (translate_fullwidth s)"
  have r: "set (py_replace [road_char] [] u) \<subseteq> set u"
    using set_py_replace[of "[road_char]" "[]" u] by simp
  have "set (py_strip (if suffix [road_char] u then py_replace [road_char] [] u else u)) \<subseteq> set u"
    using r set_py_strip[of "py_replace [road_char] [] u"] set_py_strip[of u] by auto
  then show ?thesis unfolding u_def by (simp add: Let_def)
qed

lemma normalize_name_place_subset:
  "set (normalize_name (PyStr s) False)
     \<subseteq> set (py_replace [ideographic_space] [0x20] (translate_fullwidth s))"
proof -
  define u where "u = py_replace [ideographic_space] [0x20] (translate_fullwidth s)"
  have "set (py_strip (fold (\<lambda>sfx name. py_replace sfx [] name) suffixes u)) \<subseteq> set u"
    using set_py_strip[of "fold (\<lambda>sfx name. py_replace sfx [] name) suffixes u"]
          set_fold_py_replace[of suffixes u] by blast
  then show ?thesis unfolding u_def by (simp add: Let_def)
qed

lemma normalize_name_width_folded: "width_folded (normalize_name v m)"
proof (cases v)
  case (PyStr s)
  have "set (normalize_name (PyStr s) m)
          \<subseteq> set (py_replace [ideographic_space] [0x20] (translate_fullwidth s))"
    using normalize_name_route_subset[of s] normalize_name_place_subset[of s]
    by (cases m) simp_all
  then show ?thesis unfolding PyStr using folded_space by (rule width_folded_subset)
qed (simp_all add: width_folded_def)

lemma normalize_name_trimmed: "trimmed (normalize_name v m)"
proof (cases v)
  case (PyStr s)
  show ?thesis unfolding PyStr by (cases m) (simp_all add: Let_def trimmed_py_strip)
qed (simp_all add: trimmed_def)

lemma normalize_name_again_route:
  "normalize_name (PyStr (normalize_name v True)) True =
     (if suffix [road_char] (normalize_name v True)
      then py_strip (py_replace [road_char] [] (normalize_name v True))
      else normalize_name v True)"
  using folded_space_id[OF normalize_name_width_folded[of v True]]
        py_strip_id[OF normalize_name_trimmed[of v True]]
  by (simp add: Let_def)

lemma normalize_name_again_place:
  "normalize_name (PyStr (normalize_name v False)) False =
     py_strip (fold (\<lambda>sfx name. py_replace sfx [] name) suffixes (normalize_name v False))"
  using folded_space_id[OF normalize_name_width_folded[of v False]]
  by (simp add: Let_def)

lemma normalize_name_idempotent_route:
  "normalize_name (PyStr (normalize_name v True)) True = normalize_name v True \<longleftrightarrow>
     \<not> suffix [road_char] (normalize_name v True)"
proof -
  define y where "y = normalize_name v True"
  have ne: "py_strip (py_replace [road_char] [] y) \<noteq> y" if s: "suffix [road_char] y"
  proof -
    from s have "road_char \<in> set y" by (auto simp: suffix_def)
    moreover have "road_char \<notin> set (py_strip (py_replace [road_char] [] y))"
      using set_py_strip[of "py_replace [road_char] [] y"]
            py_replace_single_notin[of road_char "[]" y] by auto
    ultimately show ?thesis by metis
  qed
  have "normalize_name (PyStr y) True =
          (if suffix [road_char] y then py_strip (py_replace [road_char] [] y) else y)"
    unfolding y_def by (rule normalize_name_again_route)
  with ne show ?thesis unfolding y_def[symmetric] by (cases "suffix [road_char] y") simp_all
qed

lemma normalize_name_idempotent_place:
  "normalize_name (PyStr (normalize_name v False)) False = normalize_name v False \<longleftrightarrow>
     (\<forall>sfx\<in>set suffixes. \<not> sublist sfx (normalize_name v False))"
proof -
  define y where "y = normalize_name v False"
  define z where "z = fold (\<lambda>sfx name. py_replace sfx [] name) suffixes y"
  have again: "normalize_name (PyStr y) False = py_strip z"
    unfolding y_def z_def by (rule normalize_name_again_place)
  have "normalize_name (PyStr y) False = y \<longleftrightarrow> (\<forall>sfx\<in>set suffixes. \<not> sublist sfx y)"
  proof (cases "\<exists>sfx\<in>set suffixes. sublist sfx y")
    case True
    with suffixes_nonempty have "length z < length y"
      unfolding z_def by (rule length_fold_py_replace_less)
    with length_py_strip[of z] have "length (py_strip z) < length y" by simp
    then have "py_strip z \<noteq> y" by auto
    with True again show ?thesis by auto
  next
    case False
    then have "\<forall>sfx\<in>set suffixes. sfx \<noteq> [] \<and> \<not> sublist sfx y"
      using suffixes_nonempty by auto
    then have "z = y" unfolding z_def by (rule fold_py_replace_absent)
    moreover have "py_strip y = y" unfolding y_def by (rule py_strip_id[OF normalize_name_trimmed])
    ultimately show ?thesis using False again by auto
  qed
  then show ?thesis unfolding y_def .
qed

lemmas norm_eval =
  translate_fullwidth_def fullwidth_to_half_def ideographic_space_def road_char_def
  py_strip_def py_isspace_def suffix_to_prefix suffixes_def

lemma normalize_name_route_no_road_char:
  "suffix [road_char] (py_replace [ideographic_space] [0x20] (translate_fullwidth s)) \<Longrightarrow>
   road_char \<notin> set (normalize_name (PyStr s) True)"
  using set_py_strip[of "py_replace [road_char] []
          (py_replace [ideographic_space] [0x20] (translate_fullwidth s))"]
        py_replace_single_notin[of road_char "[]"
          "py_replace [ideographic_space] [0x20] (translate_fullwidth s)"]
  by (auto simp: Let_def)

text \<open>
  Claim C1. ROUTE-mode normalization of a name that ends with the road character is
  said to remove exactly the trailing occurrence and to keep every other one. The
  code guards with \<open>endswith\<close> and then calls \<open>replace\<close>, which removes every
  occurrence: for the nine code points of the route name U+5317 U+6D77 U+9053 U+7E26
  U+8CAB U+81EA U+52D5 U+8ECA U+9053 both occurrences of U+9053 are gone from the
  result, the inner one included.
\<close>

theorem normalize_name_route_drops_inner_road_char:
  "normalize_name
     (PyStr [0x5317, 0x6D77, 0x9053, 0x7E26, 0x8CAB, 0x81EA, 0x52D5, 0x8ECA, 0x9053]) True
   = [0x5317, 0x6D77, 0x7E26, 0x8CAB, 0x81EA, 0x52D5, 0x8ECA]"
  by (simp add: norm_eval)

text \<open>
  Claim C3, as stated: normalizing twice gives the same text as normalizing once, in
  both modes. It fails in both. In ROUTE mode the test for the trailing road character
  comes before the trimming, so a name followed by a space (U+6771 U+5317 U+9053 U+0020)
  keeps the character in the first pass and loses it in the second. In PLACE mode
  removing a designator can join the text around it into a new one (\<open>IICC\<close> becomes
  \<open>IC\<close>, then the empty string).
\<close>

theorem normalize_name_not_idempotent:
  "normalize_name (PyStr (normalize_name (PyStr [0x6771, 0x5317, 0x9053, 0x20]) True)) True
     \<noteq> normalize_name (PyStr [0x6771, 0x5317, 0x9053, 0x20]) True
   \<and> normalize_name (PyStr (normalize_name (PyStr [0x49, 0x49, 0x43, 0x43]) False)) False
     \<noteq> normalize_name (PyStr [0x49, 0x49, 0x43, 0x43]) False"
  by (simp add: norm_eval)

text \<open>
  Claim C3, amended: a second normalization leaves the first result unchanged exactly
  when that result does not end with the road character (ROUTE mode), or contains none
  of the designators (PLACE mode).
\<close>

theorem normalize_name_idempotent_iff:
  "normalize_name (PyStr (normalize_name v m)) m = normalize_name v m \<longleftrightarrow>
     (if m then \<not> suffix [road_char] (normalize_name v m)
      else \<forall>sfx\<in>set suffixes. \<not> sublist sfx (normalize_name v m))"
  by (cases m) (simp_all only: normalize_name_idempotent_route normalize_name_idempotent_place if_True if_False)

theorem normalize_name_idempotent_iff_witness:
  "normalize_name (PyStr (normalize_name (PyStr [0x6C34, 0x6238, 0x49, 0x43]) False)) False
       = normalize_name (PyStr [0x6C34, 0x6238, 0x49, 0x43]) False
   \<and> \<not> suffix [road_char] (normalize_name (PyStr [0x5E38, 0x78D0, 0x9053]) True)
   \<and> normalize_name (PyStr (normalize_name (PyStr [0x5E38, 0x78D0, 0x9053]) True)) True
       = normalize_name (PyStr [0x5E38, 0x78D0, 0x9053]) True"
proof -
  have p: "normalize_name (PyStr [0x6C34, 0x6238, 0x49, 0x43]) False = [0x6C34, 0x6238]"
    by (simp add: norm_eval)
  have r: "normalize_name (PyStr [0x5E38, 0x78D0, 0x9053]) True = [0x5E38, 0x78D0]"
    by (simp add: norm_eval)
  have hp: "\<forall>sfx\<in>set suffixes. \<not> sublist sfx (normalize_name (PyStr [0x6C34, 0x6238, 0x49, 0x43]) False)"
    unfolding p by (simp add: suffixes_def sublist_Cons_right)
  have hr: "\<not> suffix [road_char] (normalize_name (PyStr [0x5E38, 0x78D0, 0x9053]) True)"
    unfolding r by (simp add: road_char_def suffix_to_prefix)
  from hp hr
    normalize_name_idempotent_iff[of "PyStr [0x6C34, 0x6238, 0x49, 0x43]" False]
    normalize_name_idempotent_iff[of "PyStr [0x5E38, 0x78D0, 0x9053]" True]
  show ?thesis by (simp only: if_True if_False simp_thms)
qed

lemma maketrans_table_ok:
  "\<forall>i\<in>set xs. i < 94 \<Longrightarrow>
   maketrans_table xs = Inr (map (\<lambda>i. (0xFF01 + i, 0x21 + i)) xs)"
  by (induction xs) (simp_all add: py_chr_def)

lemma map_of_offset_table:
  "map_of (map (\<lambda>i. (a + i, b + i)) xs) (c::nat) =
     (if a \<le> c \<and> c - a \<in> set xs then Some (b + (c - a) :: nat) else None)"
  by (induction xs) auto

lemma table_lookup:
  "(case map_of (map (\<lambda>i. (0xFF01 + i, 0x21 + i)) [0..<94]) c of None \<Rightarrow> c | Some d \<Rightarrow> d)
     = fullwidth_to_half c"
  unfolding map_of_offset_table fullwidth_to_half_def by auto

lemma str_translate_table:
  "str_translate (PyStr s) (map (\<lambda>i. (0xFF01 + i, 0x21 + i)) [0..<94])
     = Inr (translate_fullwidth s)"
  unfolding str_translate_def translate_fullwidth_def by (simp add: table_lookup)

lemma maketrans_table_94:
  "maketrans_table [0..<94] = Inr (map (\<lambda>i. (0xFF01 + i, 0x21 + i)) [0..<94])"
  by (rule maketrans_table_ok) simp

text \<open>
  Claim C9. \<open>normalize_name\<close> never raises and returns a string for every input: with
  the failure of each operation written out (\<open>normalize_name_checked\<close>), every value
  and both modes give a result and no error, the result being the string computed by
  \<open>normalize_name\<close>; for every value that is not a string the result is the empty
  string. The same holds of the one-argument variant of \<open>roadkill-map.py\<close>.
\<close>

theorem normalize_name_never_raises:
  "normalize_name_checked v is_route = Inr (normalize_name v is_route)
   \<and> normalize_name_precut_checked v = Inr (normalize_name_precut v)
   \<and> ((\<forall>s. v \<noteq> PyStr s) \<longrightarrow>
        normalize_name_checked v is_route = Inr []
        \<and> normalize_name_precut_checked v = Inr [])"
proof (cases v)
  case (PyStr s)
  show ?thesis unfolding PyStr
    by (simp add: normalize_name_checked_def normalize_name_precut_checked_def
        isinstance_str_def maketrans_table_94 str_translate_table Let_def
        del: maketrans_table.simps)
qed (simp_all add: normalize_name_checked_def normalize_name_precut_checked_def
        isinstance_str_def)

theorem normalize_name_never_raises_witness:
  "normalize_name_checked PyNone True = Inr []
   \<and> normalize_name_checked PyNaN False = Inr []
   \<and> normalize_name_checked (PyInt 5) False = Inr []
   \<and> normalize_name_checked (PyList []) True = Inr []
   \<and> normalize_name_precut_checked PyNone = Inr []
   \<and> normalize_name_checked (PyStr []) False = Inr []
   \<and> normalize_name_checked (PyStr [0xFF2D, 0x6C34, 0x6238, 0xFF29, 0xFF23]) False
       = Inr [0x4D, 0x6C34, 0x6238]"
proof -
  have n: "\<forall>s. PyNone \<noteq> PyStr s" by simp
  have a: "\<forall>s. PyNaN \<noteq> PyStr s" by simp
  have i: "\<forall>s. PyInt 5 \<noteq> PyStr s" by simp
  have l: "\<forall>s. PyList [] \<noteq> PyStr s" by simp
  have e: "normalize_name (PyStr []) False = []"
    by (simp add: translate_fullwidth_def py_strip_def suffixes_def)
  have m: "normalize_name (PyStr [0xFF2D, 0x6C34, 0x6238, 0xFF29, 0xFF23]) False
      = [0x4D, 0x6C34, 0x6238]"
    by (simp add: translate_fullwidth_def fullwidth_to_half_def ideographic_space_def
        py_strip_def py_isspace_def suffixes_def)
  note t = normalize_name_never_raises
  have 1: "normalize_name_checked PyNone True = Inr []"
    by (rule t[THEN conjunct2, THEN conjunct2, THEN mp, OF n, THEN conjunct1])
  have 2: "normalize_name_checked PyNaN False = Inr []"
    by (rule t[THEN conjunct2, THEN conjunct2, THEN mp, OF a, THEN conjunct1])
  have 3: "normalize_name_checked (PyInt 5) False = Inr []"
    by (rule t[THEN conjunct2, THEN conjunct2, THEN mp, OF i, THEN conjunct1])
  have 4: "normalize_name_checked (PyList []) True = Inr []"
    by (rule t[THEN conjunct2, THEN conjunct2, THEN mp, OF l, THEN conjunct1])
  have 5: "normalize_name_precut_checked PyNone = Inr []"
    by (rule t[where is_route = True, THEN conjunct2, THEN conjunct2, THEN mp, OF n,
          THEN conjunct2])
  have 6: "normalize_name_checked (PyStr []) False = Inr []"
    using t[of "PyStr []" False, THEN conjunct1] e by simp
  have 7: "normalize_name_checked (PyStr [0xFF2D, 0x6C34, 0x6238, 0xFF29, 0xFF23]) False
       = Inr [0x4D, 0x6C34, 0x6238]"
    using t[of "PyStr [0xFF2D, 0x6C34, 0x6238, 0xFF29, 0xFF23]" False, THEN conjunct1] m
    by simp
  show ?thesis using 1 2 3 4 5 6 7 by - (intro conjI; assumption)
qed

text \<open>
  Claim C10. For every input and both modes, the result of \<open>normalize_name\<close> has no
  whitespace at its start or at its end, and contains no code point of the full-width
  block U+FF01 to U+FF5E and no ideographic space U+3000.
\<close>

theorem normalize_name_output_invariant:
  "(normalize_name v is_route \<noteq> [] \<longrightarrow>
      \<not> py_isspace (hd (normalize_name v is_route))
      \<and> \<not> py_isspace (last (normalize_name v is_route)))
   \<and> (\<forall>c\<in>set (normalize_name v is_route).
        \<not> (0xFF01 \<le> c \<and> c \<le> 0xFF5E) \<and> c \<noteq> 0x3000)"
  using normalize_name_trimmed[of v is_route] normalize_name_width_folded[of v is_route]
  by (simp add: trimmed_def width_folded_def is_fullwidth_def ideographic_space_def)

theorem normalize_name_output_invariant_witness:
  "normalize_name (PyStr [0x20, 0x3000, 0xFF2D, 0x6C34, 0x6238, 0xFF29, 0xFF23, 0x3000]) False
     = [0x4D, 0x6C34, 0x6238]
   \<and> \<not> py_isspace (hd (normalize_name
         (PyStr [0x20, 0x3000, 0xFF2D, 0x6C34, 0x6238, 0xFF29, 0xFF23, 0x3000]) False))
   \<and> \<not> py_isspace (last (normalize_name
         (PyStr [0x20, 0x3000, 0xFF2D, 0x6C34, 0x6238, 0xFF29, 0xFF23, 0x3000]) False))
   \<and> 0x3000 \<notin> set (normalize_name
         (PyStr [0x20, 0x3000, 0xFF2D, 0x6C34, 0x6238, 0xFF29, 0xFF23, 0x3000]) False)
   \<and> 0xFF2D \<notin> set (normalize_name
         (PyStr [0x20, 0x3000, 0xFF2D, 0x6C34, 0x6238, 0xFF29, 0xFF23, 0x3000]) False)"
proof -
  have e: "normalize_name
      (PyStr [0x20, 0x3000, 0xFF2D, 0x6C34, 0x6238, 0xFF29, 0xFF23, 0x3000]) False
     = [0x4D, 0x6C34, 0x6238]"
    by (simp add: norm_eval)
  then have ne: "normalize_name
      (PyStr [0x20, 0x3000, 0xFF2D, 0x6C34, 0x6238, 0xFF29, 0xFF23, 0x3000]) False \<noteq> []"
    by simp
  note t = normalize_name_output_invariant
    [of "PyStr [0x20, 0x3000, 0xFF2D, 0x6C34, 0x6238, 0xFF29, 0xFF23, 0x3000]" False]
  note sp = t[THEN conjunct1, THEN mp, OF ne]
  have a: "0x3000 \<notin> set (normalize_name
         (PyStr [0x20, 0x3000, 0xFF2D, 0x6C34, 0x6238, 0xFF29, 0xFF23, 0x3000]) False)"
    using t[THEN conjunct2] by blast
  have b: "0xFF2D \<notin> set (normalize_name
         (PyStr [0x20, 0x3000, 0xFF2D, 0x6C34, 0x6238, 0xFF29, 0xFF23, 0x3000]) False)"
    using t[THEN conjunct2] by force
  show ?thesis using e sp[THEN conjunct1] sp[THEN conjunct2] a b
    by - (intro conjI; assumption)
qed

section \<open>Properties of the rounding\<close>

lemma bit_length_numeral: "bit_length (numeral n) = Suc (bit_length (numeral n div 2))"
  by (subst bit_length.simps) simp

lemma bit_length_small: "bit_length 0 = 0" "bit_length (Suc 0) = Suc 0" "bit_length 1 = 1"
  by (simp_all add: bit_length.simps)

lemmas double_eval =
  round_double_def binary_exponent_def pow2_def round_half_even_def Let_def
  bit_length_numeral bit_length_small

lemma bit_length_le: "n < 2 ^ k \<Longrightarrow> bit_length n \<le> k"
proof (induction k arbitrary: n)
  case 0
  then show ?case by (simp add: bit_length.simps)
next
  case (Suc k)
  show ?case
  proof (cases "n = 0")
    case True
    then show ?thesis by (simp add: bit_length.simps)
  next
    case False
    from Suc.prems have "n div 2 < 2 ^ k" by simp
    then have "bit_length (n div 2) \<le> k" by (rule Suc.IH)
    with False show ?thesis by (subst bit_length.simps) simp
  qed
qed

lemma bit_length_pos: "0 < n \<Longrightarrow> 0 < bit_length n"
  by (subst bit_length.simps) simp

lemma round_half_even_of_int: "round_half_even (of_int z) = z"
  by (simp add: round_half_even_def)

lemma float_of_count_exact:
  assumes "n < 2 ^ 53"
  shows "float_of_count n = Num (real n)"
proof (cases "n = 0")
  case True
  then show ?thesis by (simp add: float_of_count_def round_double_def)
next
  case False
  define b where "b = bit_length n"
  from False have bpos: "0 < b" unfolding b_def by (simp add: bit_length_pos)
  from assms have ble: "b \<le> 53" unfolding b_def by (rule bit_length_le)
  from False have one: "1 \<le> \<bar>real n\<bar>" by simp
  have ex: "binary_exponent (real n) = int b - 1"
    using one by (simp add: binary_exponent_def b_def)
  have mx: "max (int b - 1) (- 1022) = int b - 1" using bpos by simp
  have ulp: "pow2 (int b - 1 - 52) = 1 / 2 ^ (53 - b)"
  proof (cases "b = 53")
    case True
    then show ?thesis by (simp add: pow2_def)
  next
    case F: False
    with ble have "b < 53" by simp
    then have "nat (53 - int b) = 53 - b" by simp
    moreover from \<open>b < 53\<close> have "\<not> 0 \<le> int b - 1 - 52" by simp
    moreover have "- (int b - 1 - 52) = 53 - int b" by simp
    ultimately show ?thesis by (simp add: pow2_def)
  qed
  have q: "real n / (1 / 2 ^ (53 - b)) = of_int (int n * 2 ^ (53 - b))" by simp
  have r: "of_int (round_half_even (real n / (1 / 2 ^ (53 - b)))) * (1 / 2 ^ (53 - b)) = real n"
    unfolding q round_half_even_of_int by simp
  have lt: "real n < 2 ^ 1024"
  proof -
    from assms have "real n < 2 ^ 53" by (metis of_nat_less_iff of_nat_numeral of_nat_power)
    also have "\<dots> \<le> (2::real) ^ 1024" by (rule power_increasing) simp_all
    finally show ?thesis .
  qed
  have nn: "\<not> real n \<le> - (2 ^ 1024)"
  proof -
    have "(0::real) < 2 ^ 1024" by simp
    then show ?thesis by (smt (verit) of_nat_0_le_iff)
  qed
  from False have nz: "real n \<noteq> 0" by simp
  show ?thesis
    unfolding float_of_count_def round_double_def Let_def ex mx ulp r
    using nz lt nn by simp
qed

section \<open>Properties of the nearest-pair search\<close>

lemma best_pair_fold:
  "fold (best_pair_step hav) ps (Infinity, None) = (m, b) \<Longrightarrow>
     (b = None \<and> m = Infinity \<and> (\<forall>p\<in>set ps. \<not> 0 < pair_dist hav p))
   \<or> (\<exists>i<length ps. b = Some (ps ! i) \<and> m = Finite (pair_dist hav (ps ! i))
         \<and> 0 < pair_dist hav (ps ! i)
         \<and> (\<forall>j<length ps. 0 < pair_dist hav (ps ! j) \<longrightarrow>
               pair_dist hav (ps ! i) \<le> pair_dist hav (ps ! j))
         \<and> (\<forall>j<i. 0 < pair_dist hav (ps ! j) \<longrightarrow>
               pair_dist hav (ps ! i) < pair_dist hav (ps ! j)))"
proof (induction ps arbitrary: m b rule: rev_induct)
  case Nil
  then show ?case by simp
next
  case (snoc x xs)
  obtain m0 b0 where st: "fold (best_pair_step hav) xs (Infinity, None) = (m0, b0)"
    by (cases "fold (best_pair_step hav) xs (Infinity, None)") auto
  from snoc.prems st have step: "best_pair_step hav x (m0, b0) = (m, b)" by simp
  from snoc.IH[OF st] show ?case
  proof
    assume none: "b0 = None \<and> m0 = Infinity \<and> (\<forall>p\<in>set xs. \<not> 0 < pair_dist hav p)"
    show ?thesis
    proof (cases "0 < pair_dist hav x")
      case True
      with none step have "b = Some x" "m = Finite (pair_dist hav x)"
        by (auto simp: best_pair_step_def below_def Let_def)
      moreover have "\<forall>j<length (xs @ [x]). 0 < pair_dist hav ((xs @ [x]) ! j) \<longrightarrow>
               pair_dist hav x \<le> pair_dist hav ((xs @ [x]) ! j)"
        using none by (auto simp: nth_append)
      moreover have "\<forall>j<length xs. 0 < pair_dist hav ((xs @ [x]) ! j) \<longrightarrow>
               pair_dist hav x < pair_dist hav ((xs @ [x]) ! j)"
        using none by (auto simp: nth_append)
      ultimately have "\<exists>i<length (xs @ [x]). b = Some ((xs @ [x]) ! i)
         \<and> m = Finite (pair_dist hav ((xs @ [x]) ! i))
         \<and> 0 < pair_dist hav ((xs @ [x]) ! i)
         \<and> (\<forall>j<length (xs @ [x]). 0 < pair_dist hav ((xs @ [x]) ! j) \<longrightarrow>
               pair_dist hav ((xs @ [x]) ! i) \<le> pair_dist hav ((xs @ [x]) ! j))
         \<and> (\<forall>j<i. 0 < pair_dist hav ((xs @ [x]) ! j) \<longrightarrow>
               pair_dist hav ((xs @ [x]) ! i) < pair_dist hav ((xs @ [x]) ! j))"
        using True by (intro exI[of _ "length xs"]) simp
      then show ?thesis ..
    next
      case False
      with none step have "b = None" "m = Infinity"
        by (auto simp: best_pair_step_def Let_def)
      with none False show ?thesis by auto
    qed
  next
    assume "\<exists>i<length xs. b0 = Some (xs ! i) \<and> m0 = Finite (pair_dist hav (xs ! i))
         \<and> 0 < pair_dist hav (xs ! i)
         \<and> (\<forall>j<length xs. 0 < pair_dist hav (xs ! j) \<longrightarrow>
               pair_dist hav (xs ! i) \<le> pair_dist hav (xs ! j))
         \<and> (\<forall>j<i. 0 < pair_dist hav (xs ! j) \<longrightarrow>
               pair_dist hav (xs ! i) < pair_dist hav (xs ! j))"
    then obtain i where i: "i < length xs" "b0 = Some (xs ! i)"
        "m0 = Finite (pair_dist hav (xs ! i))" "0 < pair_dist hav (xs ! i)"
        "\<forall>j<length xs. 0 < pair_dist hav (xs ! j) \<longrightarrow>
               pair_dist hav (xs ! i) \<le> pair_dist hav (xs ! j)"
        "\<forall>j<i. 0 < pair_dist hav (xs ! j) \<longrightarrow>
               pair_dist hav (xs ! i) < pair_dist hav (xs ! j)"
      by blast
    show ?thesis
    proof (cases "0 < pair_dist hav x \<and> pair_dist hav x < pair_dist hav (xs ! i)")
      case True
      with i step have bm: "b = Some x" "m = Finite (pair_dist hav x)"
        by (auto simp: best_pair_step_def below_def Let_def)
      have a: "\<forall>j<length (xs @ [x]). 0 < pair_dist hav ((xs @ [x]) ! j) \<longrightarrow>
               pair_dist hav x \<le> pair_dist hav ((xs @ [x]) ! j)"
      proof (intro allI impI)
        fix j assume j: "j < length (xs @ [x])" "0 < pair_dist hav ((xs @ [x]) ! j)"
        show "pair_dist hav x \<le> pair_dist hav ((xs @ [x]) ! j)"
        proof (cases "j < length xs")
          case True
          with j i(5) have "pair_dist hav (xs ! i) \<le> pair_dist hav (xs ! j)"
            by (simp add: nth_append)
          with \<open>0 < pair_dist hav x \<and> pair_dist hav x < pair_dist hav (xs ! i)\<close> True
          show ?thesis by (simp add: nth_append)
        next
          case False
          with j have "j = length xs" by simp
          then show ?thesis by simp
        qed
      qed
      have c: "\<forall>j<length xs. 0 < pair_dist hav ((xs @ [x]) ! j) \<longrightarrow>
               pair_dist hav x < pair_dist hav ((xs @ [x]) ! j)"
      proof (intro allI impI)
        fix j assume j: "j < length xs" "0 < pair_dist hav ((xs @ [x]) ! j)"
        with i(5) have "pair_dist hav (xs ! i) \<le> pair_dist hav (xs ! j)"
          by (simp add: nth_append)
        with True j show "pair_dist hav x < pair_dist hav ((xs @ [x]) ! j)"
          by (simp add: nth_append)
      qed
      have "\<exists>k<length (xs @ [x]). b = Some ((xs @ [x]) ! k)
         \<and> m = Finite (pair_dist hav ((xs @ [x]) ! k))
         \<and> 0 < pair_dist hav ((xs @ [x]) ! k)
         \<and> (\<forall>j<length (xs @ [x]). 0 < pair_dist hav ((xs @ [x]) ! j) \<longrightarrow>
               pair_dist hav ((xs @ [x]) ! k) \<le> pair_dist hav ((xs @ [x]) ! j))
         \<and> (\<forall>j<k. 0 < pair_dist hav ((xs @ [x]) ! j) \<longrightarrow>
               pair_dist hav ((xs @ [x]) ! k) < pair_dist hav ((xs @ [x]) ! j))"
        using True bm a c by (intro exI[of _ "length xs"]) simp
      then show ?thesis ..
    next
      case False
      with i step have bm: "b = Some (xs ! i)" "m = Finite (pair_dist hav (xs ! i))"
        by (auto simp: best_pair_step_def below_def Let_def)
      have a: "\<forall>j<length (xs @ [x]). 0 < pair_dist hav ((xs @ [x]) ! j) \<longrightarrow>
               pair_dist hav (xs ! i) \<le> pair_dist hav ((xs @ [x]) ! j)"
      proof (intro allI impI)
        fix j assume j: "j < length (xs @ [x])" "0 < pair_dist hav ((xs @ [x]) ! j)"
        show "pair_dist hav (xs ! i) \<le> pair_dist hav ((xs @ [x]) ! j)"
        proof (cases "j < length xs")
          case True
          with j i(5) show ?thesis by (simp add: nth_append)
        next
          case F: False
          with j have "j = length xs" by simp
          with j False show ?thesis by auto
        qed
      qed
      have c: "\<forall>j<i. 0 < pair_dist hav ((xs @ [x]) ! j) \<longrightarrow>
               pair_dist hav (xs ! i) < pair_dist hav ((xs @ [x]) ! j)"
        using i(1) i(6) by (auto simp: nth_append)
      have "\<exists>k<length (xs @ [x]). b = Some ((xs @ [x]) ! k)
         \<and> m = Finite (pair_dist hav ((xs @ [x]) ! k))
         \<and> 0 < pair_dist hav ((xs @ [x]) ! k)
         \<and> (\<forall>j<length (xs @ [x]). 0 < pair_dist hav ((xs @ [x]) ! j) \<longrightarrow>
               pair_dist hav ((xs @ [x]) ! k) \<le> pair_dist hav ((xs @ [x]) ! j))
         \<and> (\<forall>j<k. 0 < pair_dist hav ((xs @ [x]) ! j) \<longrightarrow>
               pair_dist hav ((xs @ [x]) ! k) < pair_dist hav ((xs @ [x]) ! j))"
        using i(1) i(4) bm a c by (intro exI[of _ i]) (simp add: nth_append)
      then show ?thesis ..
    qed
  qed
qed

section \<open>The example data evaluated\<close>

lemma scenario_counts:
  "section_counts [scenario_incident, scenario_incident] =
     [\<lparr> sc_route = [0x5E38, 0x78D0, 0x9053],
        sc_section = [0x6C34, 0x6238, 0x49, 0x43, 0x301C, 0x90A3, 0x73C2, 0x49, 0x43],
        sc_count = 2, sc_length = 10,
        start_norm = [0x6C34, 0x6238], end_norm = [0x90A3, 0x73C2] \<rparr>]"
  by (simp add: section_counts_def group_keys_def group_rows_def key_cols_def first_length_def
      scenario_incident_def separator_def split_cell_def has_column_def norm_eval)

lemma scenario_counts_wide:
  "section_counts [scenario_incident, scenario_incident_wide] =
     [\<lparr> sc_route = [0x5E38, 0x78D0, 0x9053],
        sc_section = [0x6C34, 0x6238, 0x49, 0x43, 0x301C, 0x90A3, 0x73C2, 0x49, 0x43],
        sc_count = 1, sc_length = 10,
        start_norm = [0x6C34, 0x6238], end_norm = [0x90A3, 0x73C2] \<rparr>,
      \<lparr> sc_route = [0x5E38, 0x78D0, 0x9053],
        sc_section = [0x6C34, 0x6238, 0xFF29, 0xFF23, 0x301C, 0x90A3, 0x73C2, 0xFF29, 0xFF23],
        sc_count = 1, sc_length = 10,
        start_norm = [0x6C34, 0x6238], end_norm = [0x90A3, 0x73C2] \<rparr>]"
  by (simp add: section_counts_def group_keys_def group_rows_def key_cols_def first_length_def
      scenario_incident_def scenario_incident_wide_def separator_def split_cell_def has_column_def norm_eval)

lemma scenario_map:
  "get_map_data scenario_hav scenario_dst scenario_truthy
     (section_counts [scenario_incident, scenario_incident])
     scenario_ic_locations scenario_route_geometries =
   [\<lparr> mr_route = [0x5E38, 0x78D0, 0x9053],
      mr_section = [0x6C34, 0x6238, 0x49, 0x43, 0x301C, 0x90A3, 0x73C2, 0x49, 0x43],
      mr_count = 2, mr_length = 10,
      start_lon = 140, start_lat = 36, end_lon = 141, end_lat = 37 \<rparr>]"
  unfolding scenario_counts
  by (simp add: get_map_data_def py_unique_def route_name_map_def resolve_row_def
      List.map_filter_def dict_get_list_def valid_candidates_def select_best_pair_def
      best_pair_step_def pair_dist_def below_def DISTANCE_THRESHOLD_M_def
      round_double_def float_lt_def
      scenario_hav_def scenario_dst_def scenario_truthy_def scenario_ic_locations_def
      scenario_route_geometries_def mito_def naka_def sublist_Cons_right norm_eval)

section \<open>Properties of the resolution\<close>

lemma select_best_pair_Some:
  assumes "select_best_pair hav vs ve = Some pr"
  shows "\<exists>i<length (List.product vs ve). List.product vs ve ! i = pr
         \<and> 0 < pair_dist hav pr
         \<and> (\<forall>j<length (List.product vs ve). 0 < pair_dist hav (List.product vs ve ! j) \<longrightarrow>
               pair_dist hav pr \<le> pair_dist hav (List.product vs ve ! j))
         \<and> (\<forall>j<i. 0 < pair_dist hav (List.product vs ve ! j) \<longrightarrow>
               pair_dist hav pr < pair_dist hav (List.product vs ve ! j))"
proof -
  obtain m b where st: "fold (best_pair_step hav) (List.product vs ve) (Infinity, None) = (m, b)"
    by (cases "fold (best_pair_step hav) (List.product vs ve) (Infinity, None)") auto
  with assms have b: "b = Some pr" by (simp add: select_best_pair_def)
  from best_pair_fold[OF st] b show ?thesis by auto
qed

lemma select_best_pair_None:
  "select_best_pair hav vs ve = None \<longleftrightarrow>
     (\<forall>p\<in>set (List.product vs ve). \<not> 0 < pair_dist hav p)"
proof -
  obtain m b where st: "fold (best_pair_step hav) (List.product vs ve) (Infinity, None) = (m, b)"
    by (cases "fold (best_pair_step hav) (List.product vs ve) (Infinity, None)") auto
  then have sel: "select_best_pair hav vs ve = b" by (simp add: select_best_pair_def)
  from best_pair_fold[OF st] show ?thesis unfolding sel
  proof
    assume "b = None \<and> m = Infinity \<and> (\<forall>p\<in>set (List.product vs ve). \<not> 0 < pair_dist hav p)"
    then show "b = None \<longleftrightarrow> (\<forall>p\<in>set (List.product vs ve). \<not> 0 < pair_dist hav p)" by simp
  next
    assume "\<exists>i<length (List.product vs ve). b = Some (List.product vs ve ! i)
         \<and> m = Finite (pair_dist hav (List.product vs ve ! i))
         \<and> 0 < pair_dist hav (List.product vs ve ! i)
         \<and> (\<forall>j<length (List.product vs ve). 0 < pair_dist hav (List.product vs ve ! j) \<longrightarrow>
               pair_dist hav (List.product vs ve ! i) \<le> pair_dist hav (List.product vs ve ! j))
         \<and> (\<forall>j<i. 0 < pair_dist hav (List.product vs ve ! j) \<longrightarrow>
               pair_dist hav (List.product vs ve ! i) < pair_dist hav (List.product vs ve ! j))"
    then obtain i where i: "i < length (List.product vs ve)" "b = Some (List.product vs ve ! i)"
      "0 < pair_dist hav (List.product vs ve ! i)" by blast
    from i(1) have "List.product vs ve ! i \<in> set (List.product vs ve)" by (rule nth_mem)
    with i(3) have "\<exists>p\<in>set (List.product vs ve). 0 < pair_dist hav p" by blast
    with i(2) show "b = None \<longleftrightarrow> (\<forall>p\<in>set (List.product vs ve). \<not> 0 < pair_dist hav p)" by blast
  qed
qed

lemma resolve_row_Some:
  assumes "resolve_row hav dst truthy ic rg nm row = Some r"
  shows "\<exists>official g pr. nm (sc_route row) = Some official \<and> map_of rg official = Some g
     \<and> select_best_pair hav
          (valid_candidates dst g (dict_get_list ic (start_norm row)))
          (valid_candidates dst g (dict_get_list ic (end_norm row))) = Some pr
     \<and> r = \<lparr> mr_route = sc_route row, mr_section = sc_section row,
             mr_count = sc_count row, mr_length = sc_length row,
             start_lon = pt_x (fst pr), start_lat = pt_y (fst pr),
             end_lon = pt_x (snd pr), end_lat = pt_y (snd pr) \<rparr>"
  using assms unfolding resolve_row_def Let_def
  by (auto split: option.splits if_splits)

lemma resolve_row_positive:
  assumes "resolve_row hav dst truthy ic rg nm row = Some r"
  shows "0 < hav (start_lat r, start_lon r) (end_lat r, end_lon r)"
proof -
  from resolve_row_Some[OF assms] obtain g pr where
    sel: "select_best_pair hav
          (valid_candidates dst g (dict_get_list ic (start_norm row)))
          (valid_candidates dst g (dict_get_list ic (end_norm row))) = Some pr"
    and r: "r = \<lparr> mr_route = sc_route row, mr_section = sc_section row,
             mr_count = sc_count row, mr_length = sc_length row,
             start_lon = pt_x (fst pr), start_lat = pt_y (fst pr),
             end_lon = pt_x (snd pr), end_lat = pt_y (snd pr) \<rparr>"
    by blast
  from select_best_pair_Some[OF sel] have "0 < pair_dist hav pr" by blast
  then show ?thesis by (simp add: r pair_dist_def)
qed

lemma resolve_row_no_pair:
  assumes "nm (sc_route row) = Some official" "map_of rg official = Some g"
    and "select_best_pair hav
          (valid_candidates dst g (dict_get_list ic (start_norm row)))
          (valid_candidates dst g (dict_get_list ic (end_norm row))) = None"
  shows "resolve_row hav dst truthy ic rg nm row = None"
  using assms unfolding resolve_row_def Let_def by simp

lemma set_map_filter: "set (List.map_filter f xs) = {y. \<exists>x\<in>set xs. f x = Some y}"
  by (force simp: List.map_filter_def image_iff)

lemma get_map_data_rows:
  "r \<in> set (get_map_data hav dst truthy sc ic rg) \<Longrightarrow>
   \<exists>row\<in>set sc. resolve_row hav dst truthy ic rg
       (route_name_map (py_unique (map sc_route sc)) (map fst rg)) row = Some r"
  by (auto simp: get_map_data_def Let_def set_map_filter)

lemma length_map_filter_le: "length (List.map_filter f xs) \<le> length xs"
  by (simp add: List.map_filter_def)

lemma fold_dict_fill:
  "fold (\<lambda>k m. case F k of None \<Rightarrow> m | Some v \<Rightarrow> m(k \<mapsto> v)) names m0 n =
     (if n \<in> set names then (case F n of None \<Rightarrow> m0 n | Some v \<Rightarrow> Some v) else m0 n)"
proof (induction names arbitrary: m0)
  case Nil
  then show ?case by simp
next
  case (Cons a names)
  show ?case by (simp add: Cons.IH split: option.splits)
qed

lemma route_name_map_lookup:
  "route_name_map names shp n =
     (if n \<in> set names
      then find (\<lambda>shp_name. sublist (normalize_name (PyStr n) True) shp_name) shp
      else None)"
  unfolding route_name_map_def
  using fold_dict_fill[of "\<lambda>k. find (\<lambda>shp_name. sublist (normalize_name (PyStr k) True) shp_name) shp"
          names Map.empty n]
  by (simp del: normalize_name.simps split: option.splits)

lemma set_py_unique: "set (py_unique xs) = set xs"
  by (simp add: py_unique_def)

lemma resolve_row_endpoints_cong:
  assumes "nm (sc_route r1) = nm (sc_route r2)"
    and "start_norm r1 = start_norm r2" and "end_norm r1 = end_norm r2"
  shows "map_option endpoints (resolve_row hav dst truthy ic rg nm r1)
       = map_option endpoints (resolve_row hav dst truthy ic rg nm r2)"
  using assms unfolding resolve_row_def Let_def
  by (simp add: endpoints_def split: option.splits)

lemmas scenario_eval =
  select_best_pair_def best_pair_step_def pair_dist_def below_def scenario_hav_def
  origin_def east_def north_def mito_def naka_def

text \<open>
  Claim C4. The nearest-pair search never selects a pair at distance zero: a selected
  pair is one of the cross product and has a positive distance. If every pair of the
  surviving candidates has distance zero the search finds nothing and the row yields no
  map entry. Hence every entry of the map has endpoints at a positive distance.
\<close>

theorem zero_distance_pair_never_selected:
  "(select_best_pair hav vs ve = Some pr \<longrightarrow>
      pr \<in> set (List.product vs ve) \<and> 0 < pair_dist hav pr)
   \<and> ((\<forall>p\<in>set (List.product vs ve). pair_dist hav p = 0) \<longrightarrow>
        select_best_pair hav vs ve = None)
   \<and> (nm (sc_route row) = Some official \<and> map_of rg official = Some g
        \<and> (\<forall>p\<in>set (List.product
                    (valid_candidates dst g (dict_get_list ic (start_norm row)))
                    (valid_candidates dst g (dict_get_list ic (end_norm row)))).
              pair_dist hav p = 0) \<longrightarrow>
        resolve_row hav dst truthy ic rg nm row = None)
   \<and> (\<forall>r\<in>set (get_map_data hav dst truthy sc ic rg).
        0 < hav (start_lat r, start_lon r) (end_lat r, end_lon r))"
proof (intro conjI impI ballI)
  assume s: "select_best_pair hav vs ve = Some pr"
  from select_best_pair_Some[OF s] obtain i where
    "i < length (List.product vs ve)" "List.product vs ve ! i = pr" by blast
  then show "pr \<in> set (List.product vs ve)" using nth_mem by blast
  from select_best_pair_Some[OF s] show "0 < pair_dist hav pr" by blast
next
  assume "\<forall>p\<in>set (List.product vs ve). pair_dist hav p = 0"
  then have "\<forall>p\<in>set (List.product vs ve). \<not> 0 < pair_dist hav p" by simp
  then show "select_best_pair hav vs ve = None" by (simp only: select_best_pair_None)
next
  assume a: "nm (sc_route row) = Some official \<and> map_of rg official = Some g
        \<and> (\<forall>p\<in>set (List.product
                    (valid_candidates dst g (dict_get_list ic (start_norm row)))
                    (valid_candidates dst g (dict_get_list ic (end_norm row)))).
              pair_dist hav p = 0)"
  then have "\<forall>p\<in>set (List.product
                    (valid_candidates dst g (dict_get_list ic (start_norm row)))
                    (valid_candidates dst g (dict_get_list ic (end_norm row)))).
              \<not> 0 < pair_dist hav p" by simp
  then have "select_best_pair hav
          (valid_candidates dst g (dict_get_list ic (start_norm row)))
          (valid_candidates dst g (dict_get_list ic (end_norm row))) = None"
    by (simp only: select_best_pair_None)
  with a show "resolve_row hav dst truthy ic rg nm row = None"
    by (intro resolve_row_no_pair) auto
next
  fix r assume "r \<in> set (get_map_data hav dst truthy sc ic rg)"
  from get_map_data_rows[OF this] show "0 < hav (start_lat r, start_lon r) (end_lat r, end_lon r)"
    using resolve_row_positive by blast
qed

theorem zero_distance_pair_never_selected_witness:
  "select_best_pair scenario_hav [origin] [origin, east] = Some (origin, east)
   \<and> 0 < pair_dist scenario_hav (origin, east)
   \<and> pair_dist scenario_hav (origin, origin) = 0
   \<and> pair_dist scenario_hav (mito, mito) = 0
   \<and> select_best_pair scenario_hav [mito] [mito] = None
   \<and> resolve_row scenario_hav scenario_dst scenario_truthy
        [([0x6C34, 0x6238], [mito])] scenario_route_geometries
        (route_name_map [[0x5E38, 0x78D0, 0x9053]] (map fst scenario_route_geometries))
        \<lparr> sc_route = [0x5E38, 0x78D0, 0x9053],
          sc_section = [0x6C34, 0x6238, 0x49, 0x43, 0x301C, 0x6C34, 0x6238, 0x49, 0x43],
          sc_count = 1, sc_length = 10,
          start_norm = [0x6C34, 0x6238], end_norm = [0x6C34, 0x6238] \<rparr> = None
   \<and> \<not> (\<exists>r\<in>set (get_map_data scenario_hav scenario_dst scenario_truthy
                  (section_counts [scenario_incident, scenario_incident])
                  scenario_ic_locations scenario_route_geometries).
        scenario_hav (start_lat r, start_lon r) (end_lat r, end_lon r) \<le> 0)"
proof -
  let ?row = "\<lparr> sc_route = [0x5E38, 0x78D0, 0x9053],
          sc_section = [0x6C34, 0x6238, 0x49, 0x43, 0x301C, 0x6C34, 0x6238, 0x49, 0x43],
          sc_count = 1, sc_length = 10,
          start_norm = [0x6C34, 0x6238], end_norm = [0x6C34, 0x6238] \<rparr>"
  let ?nm = "route_name_map [[0x5E38, 0x78D0, 0x9053]] (map fst scenario_route_geometries)"
  let ?ic = "[([0x6C34, 0x6238], [mito])] :: (ustr \<times> point list) list"
  have sel: "select_best_pair scenario_hav [origin] [origin, east] = Some (origin, east)"
    by (simp add: scenario_eval)
  have z: "\<forall>p\<in>set (List.product [mito] [mito]). pair_dist scenario_hav p = 0"
    by (simp add: scenario_eval)
  have nm: "?nm (sc_route ?row) = Some [0x5E38, 0x78D0, 0x81EA, 0x52D5, 0x8ECA]"
    by (simp add: route_name_map_def scenario_route_geometries_def sublist_Cons_right norm_eval)
  have rg: "map_of scenario_route_geometries [0x5E38, 0x78D0, 0x81EA, 0x52D5, 0x8ECA]
      = Some [mito, naka]"
    by (simp add: scenario_route_geometries_def)
  have vz: "\<forall>p\<in>set (List.product
        (valid_candidates scenario_dst [mito, naka] (dict_get_list ?ic (start_norm ?row)))
        (valid_candidates scenario_dst [mito, naka] (dict_get_list ?ic (end_norm ?row)))).
        pair_dist scenario_hav p = 0"
    by (simp add: valid_candidates_def dict_get_list_def scenario_dst_def
        DISTANCE_THRESHOLD_M_def round_double_def float_lt_def scenario_eval)
  note t1 = zero_distance_pair_never_selected
    [where hav = scenario_hav and vs = "[origin]" and ve = "[origin, east]"
       and pr = "(origin, east)"]
  note t2 = zero_distance_pair_never_selected
    [where hav = scenario_hav and vs = "[mito]" and ve = "[mito]" and nm = ?nm and row = ?row
       and official = "[0x5E38, 0x78D0, 0x81EA, 0x52D5, 0x8ECA]"
       and rg = scenario_route_geometries and g = "[mito, naka]" and dst = scenario_dst
       and ic = ?ic and truthy = scenario_truthy]
  note t3 = zero_distance_pair_never_selected
    [where hav = scenario_hav and dst = scenario_dst and truthy = scenario_truthy
       and sc = "section_counts [scenario_incident, scenario_incident]"
       and ic = scenario_ic_locations and rg = scenario_route_geometries]
  have a: "0 < pair_dist scenario_hav (origin, east)"
    by (rule t1[THEN conjunct1, THEN mp, OF sel, THEN conjunct2])
  have b: "pair_dist scenario_hav (origin, origin) = 0" by (simp add: scenario_eval)
  have c: "select_best_pair scenario_hav [mito] [mito] = None"
    by (rule t2[THEN conjunct2, THEN conjunct1, THEN mp, OF z])
  have d: "resolve_row scenario_hav scenario_dst scenario_truthy ?ic scenario_route_geometries
        ?nm ?row = None"
    by (rule t2[THEN conjunct2, THEN conjunct2, THEN conjunct1, THEN mp,
          OF conjI[OF nm conjI[OF rg vz]]])
  have e: "\<not> (\<exists>r\<in>set (get_map_data scenario_hav scenario_dst scenario_truthy
                  (section_counts [scenario_incident, scenario_incident])
                  scenario_ic_locations scenario_route_geometries).
        scenario_hav (start_lat r, start_lon r) (end_lat r, end_lon r) \<le> 0)"
    using t3[THEN conjunct2, THEN conjunct2, THEN conjunct2] by force
  have z': "pair_dist scenario_hav (mito, mito) = 0" by (simp add: scenario_eval)
  show ?thesis using sel a b z' c d e by - (intro conjI; assumption)
qed

text \<open>
  Claim C8. The selected pair is the first one, in the order of
  \<open>product(valid_starts, valid_ends)\<close>, among the pairs of smallest positive
  great-circle distance: its own distance is positive, no pair of the cross product has
  a smaller positive distance, and every earlier pair with a positive distance is
  strictly farther. A pair is selected whenever some pair has a positive distance. The
  position of the selected pair is thereby determined by the input, so two runs on the
  same input select the same pair.
\<close>

theorem best_pair_first_on_ties:
  "(select_best_pair hav vs ve = Some (s, e) \<longrightarrow>
      (\<exists>i<length (List.product vs ve). List.product vs ve ! i = (s, e)
         \<and> 0 < hav (pt_y s, pt_x s) (pt_y e, pt_x e)
         \<and> (\<forall>j s' e'. j < length (List.product vs ve)
                \<and> List.product vs ve ! j = (s', e')
                \<and> 0 < hav (pt_y s', pt_x s') (pt_y e', pt_x e') \<longrightarrow>
                hav (pt_y s, pt_x s) (pt_y e, pt_x e)
                  \<le> hav (pt_y s', pt_x s') (pt_y e', pt_x e'))
         \<and> (\<forall>j s' e'. j < i \<and> List.product vs ve ! j = (s', e')
                \<and> 0 < hav (pt_y s', pt_x s') (pt_y e', pt_x e') \<longrightarrow>
                hav (pt_y s, pt_x s) (pt_y e, pt_x e)
                  < hav (pt_y s', pt_x s') (pt_y e', pt_x e'))))
   \<and> ((\<exists>s'\<in>set vs. \<exists>e'\<in>set ve. 0 < hav (pt_y s', pt_x s') (pt_y e', pt_x e')) \<longrightarrow>
        select_best_pair hav vs ve \<noteq> None)"
proof (intro conjI impI)
  assume sel: "select_best_pair hav vs ve = Some (s, e)"
  from select_best_pair_Some[OF sel] obtain i where i: "i < length (List.product vs ve)"
    "List.product vs ve ! i = (s, e)" "0 < pair_dist hav (s, e)"
    "\<forall>j<length (List.product vs ve). 0 < pair_dist hav (List.product vs ve ! j) \<longrightarrow>
         pair_dist hav (s, e) \<le> pair_dist hav (List.product vs ve ! j)"
    "\<forall>j<i. 0 < pair_dist hav (List.product vs ve ! j) \<longrightarrow>
         pair_dist hav (s, e) < pair_dist hav (List.product vs ve ! j)"
    by blast
  have a: "0 < hav (pt_y s, pt_x s) (pt_y e, pt_x e)"
    using i(3) by (simp add: pair_dist_def)
  have b: "\<forall>j s' e'. j < length (List.product vs ve)
                \<and> List.product vs ve ! j = (s', e')
                \<and> 0 < hav (pt_y s', pt_x s') (pt_y e', pt_x e') \<longrightarrow>
                hav (pt_y s, pt_x s) (pt_y e, pt_x e)
                  \<le> hav (pt_y s', pt_x s') (pt_y e', pt_x e')"
  proof (intro allI impI)
    fix j s' e'
    assume h: "j < length (List.product vs ve) \<and> List.product vs ve ! j = (s', e')
                \<and> 0 < hav (pt_y s', pt_x s') (pt_y e', pt_x e')"
    then have "0 < pair_dist hav (List.product vs ve ! j)" by (simp add: pair_dist_def)
    with h i(4) have "pair_dist hav (s, e) \<le> pair_dist hav (List.product vs ve ! j)" by blast
    with h show "hav (pt_y s, pt_x s) (pt_y e, pt_x e)
                  \<le> hav (pt_y s', pt_x s') (pt_y e', pt_x e')"
      by (simp add: pair_dist_def)
  qed
  have c: "\<forall>j s' e'. j < i \<and> List.product vs ve ! j = (s', e')
                \<and> 0 < hav (pt_y s', pt_x s') (pt_y e', pt_x e') \<longrightarrow>
                hav (pt_y s, pt_x s) (pt_y e, pt_x e)
                  < hav (pt_y s', pt_x s') (pt_y e', pt_x e')"
  proof (intro allI impI)
    fix j s' e'
    assume h: "j < i \<and> List.product vs ve ! j = (s', e')
                \<and> 0 < hav (pt_y s', pt_x s') (pt_y e', pt_x e')"
    then have "0 < pair_dist hav (List.product vs ve ! j)" by (simp add: pair_dist_def)
    with h i(5) have "pair_dist hav (s, e) < pair_dist hav (List.product vs ve ! j)" by blast
    with h show "hav (pt_y s, pt_x s) (pt_y e, pt_x e)
                  < hav (pt_y s', pt_x s') (pt_y e', pt_x e')"
      by (simp add: pair_dist_def)
  qed
  from i(1) i(2) a b c
  show "\<exists>i<length (List.product vs ve). List.product vs ve ! i = (s, e)
         \<and> 0 < hav (pt_y s, pt_x s) (pt_y e, pt_x e)
         \<and> (\<forall>j s' e'. j < length (List.product vs ve)
                \<and> List.product vs ve ! j = (s', e')
                \<and> 0 < hav (pt_y s', pt_x s') (pt_y e', pt_x e') \<longrightarrow>
                hav (pt_y s, pt_x s) (pt_y e, pt_x e)
                  \<le> hav (pt_y s', pt_x s') (pt_y e', pt_x e'))
         \<and> (\<forall>j s' e'. j < i \<and> List.product vs ve ! j = (s', e')
                \<and> 0 < hav (pt_y s', pt_x s') (pt_y e', pt_x e') \<longrightarrow>
                hav (pt_y s, pt_x s) (pt_y e, pt_x e)
                  < hav (pt_y s', pt_x s') (pt_y e', pt_x e'))"
    by blast
next
  assume "\<exists>s'\<in>set vs. \<exists>e'\<in>set ve. 0 < hav (pt_y s', pt_x s') (pt_y e', pt_x e')"
  then obtain s' e' where "s' \<in> set vs" "e' \<in> set ve"
    "0 < hav (pt_y s', pt_x s') (pt_y e', pt_x e')" by blast
  then have "(s', e') \<in> set (List.product vs ve)" "0 < pair_dist hav (s', e')"
    by (simp_all add: pair_dist_def)
  then have "\<not> (\<forall>p\<in>set (List.product vs ve). \<not> 0 < pair_dist hav p)" by blast
  then show "select_best_pair hav vs ve \<noteq> None"
    using select_best_pair_None[of hav vs ve] by blast
qed

theorem best_pair_first_on_ties_witness:
  "scenario_hav (pt_y origin, pt_x origin) (pt_y east, pt_x east)
     = scenario_hav (pt_y origin, pt_x origin) (pt_y north, pt_x north)
   \<and> List.product [origin] [east, north] = [(origin, east), (origin, north)]
   \<and> select_best_pair scenario_hav [origin] [east, north] = Some (origin, east)
   \<and> select_best_pair scenario_hav [origin] [north, east] = Some (origin, north)
   \<and> scenario_hav (pt_y origin, pt_x origin) (pt_y east, pt_x east)
     < scenario_hav (pt_y origin, pt_x origin) (pt_y mito, pt_x mito)
   \<and> select_best_pair scenario_hav [origin] [mito, east, north] = Some (origin, east)
   \<and> (\<exists>i<length (List.product [origin] [mito, east, north]).
         List.product [origin] [mito, east, north] ! i = (origin, east)
         \<and> 0 < scenario_hav (pt_y origin, pt_x origin) (pt_y east, pt_x east))"
proof -
  have tie: "scenario_hav (pt_y origin, pt_x origin) (pt_y east, pt_x east)
     = scenario_hav (pt_y origin, pt_x origin) (pt_y north, pt_x north)"
    by (simp add: scenario_eval)
  have pr: "List.product [origin] [east, north] = [(origin, east), (origin, north)]" by simp
  have s1: "select_best_pair scenario_hav [origin] [east, north] = Some (origin, east)"
    by (simp add: scenario_eval)
  have s2: "select_best_pair scenario_hav [origin] [north, east] = Some (origin, north)"
    by (simp add: scenario_eval)
  have near: "scenario_hav (pt_y origin, pt_x origin) (pt_y east, pt_x east)
     < scenario_hav (pt_y origin, pt_x origin) (pt_y mito, pt_x mito)"
    by (simp add: scenario_eval)
  have s3: "select_best_pair scenario_hav [origin] [mito, east, north] = Some (origin, east)"
    by (simp add: scenario_eval)
  from best_pair_first_on_ties[where hav = scenario_hav and vs = "[origin]"
      and ve = "[mito, east, north]" and s = origin and e = east,
      THEN conjunct1, THEN mp, OF s3]
  have ex: "\<exists>i<length (List.product [origin] [mito, east, north]).
         List.product [origin] [mito, east, north] ! i = (origin, east)
         \<and> 0 < scenario_hav (pt_y origin, pt_x origin) (pt_y east, pt_x east)"
    by blast
  show ?thesis using tie pr s1 s2 near s3 ex by - (intro conjI; assumption)
qed

section \<open>Threshold and density\<close>

text \<open>
  Claim C5. The plausibility filter compares strictly: a candidate survives exactly when
  the double product of its distance and 111000 is below 3000 (a number below 3000, or
  minus infinity), and a candidate whose product is exactly 3000 is excluded.
\<close>

theorem plausibility_filter_strict:
  "(p \<in> set (valid_candidates dst g candidates) \<longleftrightarrow>
      p \<in> set candidates
      \<and> (float_mul (dst p g) (Num 111000) = NegInf
         \<or> (\<exists>m. float_mul (dst p g) (Num 111000) = Num m \<and> m < 3000)))
   \<and> (float_mul (dst p g) (Num 111000) = Num 3000 \<longrightarrow>
        p \<notin> set (valid_candidates dst g candidates))"
  by (cases "float_mul (dst p g) (Num 111000)")
     (auto simp: valid_candidates_def DISTANCE_THRESHOLD_M_def float_lt_def)

theorem plausibility_filter_strict_witness:
  "float_mul (Num (7790010166262479 / 2 ^ 58)) (Num 111000) = Num 3000
   \<and> (7790010166262479 / 2 ^ 58 :: real) * 111000 < 3000
   \<and> \<lparr> pt_x = 140, pt_y = 7790010166262479 / 2 ^ 58 \<rparr>
       \<notin> set (valid_candidates (\<lambda>p g. Num \<bar>pt_y p - g\<bar>) (0::real)
         [\<lparr> pt_x = 140, pt_y = 7790010166262479 / 2 ^ 58 \<rparr>,
          \<lparr> pt_x = 140, pt_y = 7790010166262478 / 2 ^ 58 \<rparr>])
   \<and> float_mul (Num (7790010166262478 / 2 ^ 58)) (Num 111000) = Num (3000 - 1 / 2 ^ 41)
   \<and> \<lparr> pt_x = 140, pt_y = 7790010166262478 / 2 ^ 58 \<rparr>
       \<in> set (valid_candidates (\<lambda>p g. Num \<bar>pt_y p - g\<bar>) (0::real)
         [\<lparr> pt_x = 140, pt_y = 7790010166262479 / 2 ^ 58 \<rparr>,
          \<lparr> pt_x = 140, pt_y = 7790010166262478 / 2 ^ 58 \<rparr>])"
proof -
  let ?d = "\<lambda>(p::point) (g::real). Num \<bar>pt_y p - g\<bar>"
  let ?a = "\<lparr> pt_x = 140, pt_y = 7790010166262479 / 2 ^ 58 \<rparr>"
  let ?b = "\<lparr> pt_x = 140, pt_y = 7790010166262478 / 2 ^ 58 \<rparr>"
  have ma: "float_mul (Num (7790010166262479 / 2 ^ 58)) (Num 111000) = Num 3000"
    by (simp add: double_eval)
  have ra: "(7790010166262479 / 2 ^ 58 :: real) * 111000 < 3000" by simp
  have mb: "float_mul (Num (7790010166262478 / 2 ^ 58)) (Num 111000)
      = Num (3000 - 1 / 2 ^ 41)"
    by (simp add: double_eval)
  have da: "?d ?a 0 = Num (7790010166262479 / 2 ^ 58)" by simp
  have ha: "float_mul (?d ?a 0) (Num 111000) = Num 3000" unfolding da by (rule ma)
  have db: "?d ?b 0 = Num (7790010166262478 / 2 ^ 58)" by simp
  have lt: "(3000 - 1 / 2 ^ 41 :: real) < 3000" by simp
  have "\<exists>m. float_mul (?d ?b 0) (Num 111000) = Num m \<and> m < 3000"
    unfolding db mb using lt by blast
  then have hb: "?b \<in> set [?a, ?b]
      \<and> (float_mul (?d ?b 0) (Num 111000) = NegInf
         \<or> (\<exists>m. float_mul (?d ?b 0) (Num 111000) = Num m \<and> m < 3000))"
    by simp
  have a: "?a \<notin> set (valid_candidates ?d 0 [?a, ?b])"
    by (rule plausibility_filter_strict[where dst = ?d and p = ?a and g = 0
          and candidates = "[?a, ?b]", THEN conjunct2, THEN mp, OF ha])
  have b: "?b \<in> set (valid_candidates ?d 0 [?a, ?b])"
    by (rule plausibility_filter_strict[where dst = ?d and p = ?b and g = 0
          and candidates = "[?a, ?b]", THEN conjunct1, THEN iffD2, OF hb])
  show ?thesis using ma ra a mb b by - (intro conjI; assumption)
qed

lemma py_truediv_no_error: "0 < l \<Longrightarrow> py_truediv a (Num l) \<noteq> Inl e"
  by (cases a) simp_all

lemma count_per_km_no_error: "count_per_km n len \<noteq> Inl e"
proof (cases len)
  case (Num l)
  show ?thesis
  proof (cases "0 < l")
    case True
    then have "count_per_km n len = py_truediv (float_of_count n) (Num l)"
      by (simp add: Num count_per_km_def float_gt_def del: py_truediv.simps)
    moreover have "py_truediv (float_of_count n) (Num l) \<noteq> Inl e"
      using True by (rule py_truediv_no_error)
    ultimately show ?thesis by (simp del: py_truediv.simps)
  next
    case False
    then show ?thesis by (simp add: Num count_per_km_def float_gt_def)
  qed
next
  case PosInf
  then show ?thesis
    by (cases "float_of_count n") (simp_all add: count_per_km_def float_gt_def)
qed (simp_all add: count_per_km_def float_gt_def)

lemma count_per_km_precut_eq: "count_per_km_precut n len = count_per_km n len"
  by (cases len) (simp_all add: count_per_km_precut_def count_per_km_def notna_def float_gt_def)

text \<open>
  Claim C7. For every output row of either variant the density is the count divided by
  the length, as doubles, when the length is a number greater than zero, and zero when
  the length is zero, negative or missing; no count and no length make the computation
  fail. A count below \<open>2 ^ 53\<close> is converted exactly, so the density is then the double
  nearest to the quotient (an infinity when the quotient overflows).
\<close>

theorem density_floor:
  "(pr_length prow = Num l \<and> 0 < l \<longrightarrow>
      precut_row_density prow = py_truediv (float_of_count (pr_count prow)) (Num l)
      \<and> (pr_count prow < 2 ^ 53 \<longrightarrow>
           precut_row_density prow = Inr (round_double (real (pr_count prow) / l))))
   \<and> (pr_length prow = NaN \<or> pr_length prow = NegInf
        \<or> (pr_length prow = Num l \<and> l \<le> 0) \<longrightarrow>
      precut_row_density prow = Inr (Num 0))
   \<and> precut_row_density prow \<noteq> Inl e
   \<and> (0 < mr_length row \<longrightarrow>
      map_row_density row
        = py_truediv (float_of_count (mr_count row)) (Num (mr_length row))
      \<and> (mr_count row < 2 ^ 53 \<longrightarrow>
           map_row_density row
             = Inr (round_double (real (mr_count row) / mr_length row))))
   \<and> (mr_length row \<le> 0 \<longrightarrow> map_row_density row = Inr (Num 0))
   \<and> map_row_density row \<noteq> Inl e
   \<and> (len = Num l \<and> 0 < l \<longrightarrow>
      count_per_km n len = py_truediv (float_of_count n) len
      \<and> count_per_km_precut n len = py_truediv (float_of_count n) len)
   \<and> (len = NaN \<or> len = NegInf \<or> (len = Num l \<and> l \<le> 0) \<longrightarrow>
      count_per_km n len = Inr (Num 0) \<and> count_per_km_precut n len = Inr (Num 0))
   \<and> count_per_km n len \<noteq> Inl e \<and> count_per_km_precut n len \<noteq> Inl e"
proof (intro conjI impI)
  show "precut_row_density prow = py_truediv (float_of_count (pr_count prow)) (Num l)"
    if "pr_length prow = Num l \<and> 0 < l"
    using that
    by (simp add: precut_row_density_def count_per_km_precut_def notna_def float_gt_def)
  show "precut_row_density prow = Inr (round_double (real (pr_count prow) / l))"
    if "pr_length prow = Num l \<and> 0 < l" "pr_count prow < 2 ^ 53"
    using that float_of_count_exact[OF that(2)]
    by (simp add: precut_row_density_def count_per_km_precut_def notna_def float_gt_def)
  show "precut_row_density prow = Inr (Num 0)"
    if "pr_length prow = NaN \<or> pr_length prow = NegInf
        \<or> (pr_length prow = Num l \<and> l \<le> 0)"
    using that
    by (auto simp: precut_row_density_def count_per_km_precut_def notna_def float_gt_def)
  show "precut_row_density prow \<noteq> Inl e"
    unfolding precut_row_density_def count_per_km_precut_eq by (rule count_per_km_no_error)
  show "map_row_density row
        = py_truediv (float_of_count (mr_count row)) (Num (mr_length row))"
    if "0 < mr_length row"
    using that by (simp add: map_row_density_def count_per_km_def float_gt_def)
  show "map_row_density row = Inr (round_double (real (mr_count row) / mr_length row))"
    if "0 < mr_length row" "mr_count row < 2 ^ 53"
    using that float_of_count_exact[OF that(2)]
    by (simp add: map_row_density_def count_per_km_def float_gt_def)
  show "map_row_density row = Inr (Num 0)" if "mr_length row \<le> 0"
    using that by (simp add: map_row_density_def count_per_km_def float_gt_def)
  show "map_row_density row \<noteq> Inl e"
    unfolding map_row_density_def by (rule count_per_km_no_error)
  show "count_per_km n len = py_truediv (float_of_count n) len"
    if "len = Num l \<and> 0 < l"
    using that by (simp add: count_per_km_def float_gt_def)
  show "count_per_km_precut n len = py_truediv (float_of_count n) len"
    if "len = Num l \<and> 0 < l"
    using that by (simp add: count_per_km_precut_def notna_def float_gt_def)
  show "count_per_km n len = Inr (Num 0)"
    if "len = NaN \<or> len = NegInf \<or> (len = Num l \<and> l \<le> 0)"
    using that by (auto simp: count_per_km_def float_gt_def)
  show "count_per_km_precut n len = Inr (Num 0)"
    if "len = NaN \<or> len = NegInf \<or> (len = Num l \<and> l \<le> 0)"
    using that by (auto simp: count_per_km_precut_def notna_def float_gt_def)
  show "count_per_km n len \<noteq> Inl e" by (rule count_per_km_no_error)
  show "count_per_km_precut n len \<noteq> Inl e"
    unfolding count_per_km_precut_eq by (rule count_per_km_no_error)
qed

theorem density_floor_witness:
  "map_row_density \<lparr> mr_route = [], mr_section = [], mr_count = 3, mr_length = 2,
       start_lon = 0, start_lat = 0, end_lon = 1, end_lat = 1 \<rparr> = Inr (Num (3 / 2))
   \<and> map_row_density \<lparr> mr_route = [], mr_section = [], mr_count = 1, mr_length = 3,
       start_lon = 0, start_lat = 0, end_lon = 1, end_lat = 1 \<rparr>
       = Inr (Num (6004799503160661 / 2 ^ 54))
   \<and> map_row_density \<lparr> mr_route = [], mr_section = [], mr_count = 3, mr_length = 0,
       start_lon = 0, start_lat = 0, end_lon = 1, end_lat = 1 \<rparr> = Inr (Num 0)
   \<and> precut_row_density \<lparr> pr_segment = scenario_segment_mito_naka, pr_count = 3,
       pr_length = Num 2, pr_route = None \<rparr> = Inr (Num (3 / 2))
   \<and> precut_row_density \<lparr> pr_segment = scenario_segment_mito_naka, pr_count = 3,
       pr_length = Num (1 / 2 ^ 1074), pr_route = None \<rparr> = Inr PosInf
   \<and> precut_row_density \<lparr> pr_segment = scenario_segment_mito_naka, pr_count = 0,
       pr_length = NaN, pr_route = None \<rparr> = Inr (Num 0)
   \<and> precut_row_density \<lparr> pr_segment = scenario_segment_mito_naka, pr_count = 3,
       pr_length = Num (- 1), pr_route = None \<rparr> = Inr (Num 0)"
proof -
  let ?m1 = "\<lparr> mr_route = [], mr_section = [], mr_count = 3, mr_length = 2,
       start_lon = 0, start_lat = 0, end_lon = 1, end_lat = 1 \<rparr>"
  let ?m2 = "\<lparr> mr_route = [], mr_section = [], mr_count = 1, mr_length = 3,
       start_lon = 0, start_lat = 0, end_lon = 1, end_lat = 1 \<rparr>"
  let ?m3 = "\<lparr> mr_route = [], mr_section = [], mr_count = 3, mr_length = 0,
       start_lon = 0, start_lat = 0, end_lon = 1, end_lat = 1 \<rparr>"
  let ?p1 = "\<lparr> pr_segment = scenario_segment_mito_naka, pr_count = 3,
       pr_length = Num 2, pr_route = None \<rparr>"
  let ?p2 = "\<lparr> pr_segment = scenario_segment_mito_naka, pr_count = 3,
       pr_length = Num (1 / 2 ^ 1074), pr_route = None \<rparr>"
  let ?p3 = "\<lparr> pr_segment = scenario_segment_mito_naka, pr_count = 0,
       pr_length = NaN, pr_route = None \<rparr>"
  let ?p4 = "\<lparr> pr_segment = scenario_segment_mito_naka, pr_count = 3,
       pr_length = Num (- 1), pr_route = None \<rparr>"
  have q1: "round_double (3 / 2) = Num (3 / 2)" by (simp add: double_eval)
  have q2: "round_double (1 / 3) = Num (6004799503160661 / 2 ^ 54)" by (simp add: double_eval)
  have q3: "round_double (3 / (1 / 2 ^ 1074)) = PosInf" by (simp add: double_eval)
  have c3: "(3::nat) < 2 ^ 53" "(1::nat) < 2 ^ 53" by simp_all
  have m1: "map_row_density ?m1 = Inr (round_double (real (mr_count ?m1) / mr_length ?m1))"
    by (rule density_floor[where row = ?m1, THEN conjunct2, THEN conjunct2, THEN conjunct2,
          THEN conjunct1, THEN mp, THEN conjunct2, THEN mp])
       (simp_all)
  have m2: "map_row_density ?m2 = Inr (round_double (real (mr_count ?m2) / mr_length ?m2))"
    by (rule density_floor[where row = ?m2, THEN conjunct2, THEN conjunct2, THEN conjunct2,
          THEN conjunct1, THEN mp, THEN conjunct2, THEN mp])
       (simp_all)
  have m3: "map_row_density ?m3 = Inr (Num 0)"
    by (rule density_floor[where row = ?m3, THEN conjunct2, THEN conjunct2, THEN conjunct2,
          THEN conjunct2, THEN conjunct1, THEN mp]) simp
  have p1: "precut_row_density ?p1 = Inr (round_double (real (pr_count ?p1) / 2))"
    by (rule density_floor[where prow = ?p1 and l = 2, THEN conjunct1, THEN mp,
          THEN conjunct2, THEN mp]) simp_all
  have p2: "precut_row_density ?p2
      = Inr (round_double (real (pr_count ?p2) / (1 / 2 ^ 1074)))"
    by (rule density_floor[where prow = ?p2 and l = "1 / 2 ^ 1074", THEN conjunct1, THEN mp,
          THEN conjunct2, THEN mp]) simp_all
  have p3: "precut_row_density ?p3 = Inr (Num 0)"
    by (rule density_floor[where prow = ?p3 and l = 0, THEN conjunct2, THEN conjunct1,
          THEN mp]) simp
  have p4: "precut_row_density ?p4 = Inr (Num 0)"
    by (rule density_floor[where prow = ?p4 and l = "- 1", THEN conjunct2, THEN conjunct1,
          THEN mp]) simp
  from m1 q1 have m1': "map_row_density ?m1 = Inr (Num (3 / 2))" by simp
  from m2 q2 have m2': "map_row_density ?m2 = Inr (Num (6004799503160661 / 2 ^ 54))" by simp
  from p1 q1 have p1': "precut_row_density ?p1 = Inr (Num (3 / 2))" by simp
  from p2 q3 have p2': "precut_row_density ?p2 = Inr PosInf" by simp
  show ?thesis using m1' m2' m3 p1' p2' p3 p4 by - (intro conjI; assumption)
qed

section \<open>Properties of the pre-cut join\<close>

lemma find_map_key:
  assumes "\<And>k. g (f k) = k"
  shows "find (\<lambda>c. g c = k) (map f ks) = (if k \<in> set ks then Some (f k) else None)"
  using assms by (induction ks) auto

lemma merge_left_section_counts:
  "merge_left (precut_section_counts df) k =
     (if k \<in> section_norm ` set df
      then Some \<lparr> pc_section_norm = k,
             pc_count = length (filter (\<lambda>r. section_norm r = k) df),
             pc_length = (case filter (\<lambda>r. section_norm r = k) df of
                            [] \<Rightarrow> 0 | r # rs \<Rightarrow> pi_length r),
             pc_route = (case filter (\<lambda>r. section_norm r = k) df of
                           [] \<Rightarrow> [] | r # rs \<Rightarrow> pi_route r) \<rparr>
      else None)"
  unfolding merge_left_def precut_section_counts_def
  by (subst find_map_key) (simp_all add: Let_def)

lemma map_gdf_segments:
  "map pr_segment (map_gdf counts sections_gdf)
     = filter (\<lambda>seg. geometry seg \<noteq> None) sections_gdf"
proof (induction sections_gdf)
  case Nil
  then show ?case by (simp add: map_gdf_def)
next
  case (Cons s ss)
  have "pr_segment (join_segment counts s) = s" by (simp add: join_segment_def Let_def)
  with Cons show ?case by (simp add: map_gdf_def)
qed

lemmas precut_eval =
  scenario_precut_incident_def scenario_precut_incident_forward_def
  scenario_segment_mito_naka_def scenario_segment_naka_mito_def
  scenario_segment_naka_hitachi_def scenario_segment_no_geometry_def
  section_norm_key_1_def section_norm_key_2_def separator_def

text \<open>
  Claim C6, as stated: a reference segment with no matching incident key is kept with
  count 0 rather than dropped. The joined frame passes through
  \<open>dropna(subset=['geometry'])\<close>: a reference segment whose geometry is missing is
  dropped, matched or not. Here the second segment matches no incident key in either
  order and is absent from the output.
\<close>

theorem precut_segment_without_geometry_dropped:
  "section_norm_key_1 scenario_segment_no_geometry \<noteq> section_norm scenario_precut_incident
   \<and> section_norm_key_2 scenario_segment_no_geometry \<noteq> section_norm scenario_precut_incident
   \<and> map pr_segment
        (map_gdf (precut_section_counts [scenario_precut_incident, scenario_precut_incident])
           [scenario_segment_mito_naka, scenario_segment_no_geometry])
      = [scenario_segment_mito_naka]
   \<and> length
        (map_gdf (precut_section_counts [scenario_precut_incident, scenario_precut_incident])
           [scenario_segment_mito_naka, scenario_segment_no_geometry]) = 1"
proof -
  have k1: "section_norm_key_1 scenario_segment_no_geometry
      \<noteq> section_norm scenario_precut_incident"
    by (simp add: precut_eval norm_eval)
  have k2: "section_norm_key_2 scenario_segment_no_geometry
      \<noteq> section_norm scenario_precut_incident"
    by (simp add: precut_eval norm_eval)
  have m: "map pr_segment
        (map_gdf (precut_section_counts [scenario_precut_incident, scenario_precut_incident])
           [scenario_segment_mito_naka, scenario_segment_no_geometry])
      = [scenario_segment_mito_naka]"
    unfolding map_gdf_segments
    by (simp add: scenario_segment_mito_naka_def scenario_segment_no_geometry_def)
  from m have l: "length
        (map_gdf (precut_section_counts [scenario_precut_incident, scenario_precut_incident])
           [scenario_segment_mito_naka, scenario_segment_no_geometry]) = 1"
    by (metis length_map length_Cons list.size(3) One_nat_def)
  show ?thesis using k1 k2 m l by - (intro conjI; assumption)
qed

text \<open>
  Claim C6, amended. Let \<open>k1\<close> be the normalized start name, the separator and the
  normalized end name of a reference segment, and \<open>k2\<close> the same with start and end
  exchanged. The output holds exactly the reference segments that have a geometry,
  whatever the incident table holds; a segment without geometry is dropped. The count
  of a segment is the number of incidents whose key is \<open>k1\<close> if there is one; otherwise
  the number of incidents whose key is \<open>k2\<close>; with no incident under either key the
  count is 0, the length is missing and the density is 0.
\<close>

theorem precut_unmatched_segment_kept:
  assumes "k1 = normalize_name_precut (PyStr (start_IC seg)) @ [0x301C]
                  @ normalize_name_precut (PyStr (end_IC seg))"
    and "k2 = normalize_name_precut (PyStr (end_IC seg)) @ [0x301C]
                  @ normalize_name_precut (PyStr (start_IC seg))"
  shows "map pr_segment (map_gdf (precut_section_counts df) sections_gdf)
     = filter (\<lambda>seg. geometry seg \<noteq> None) sections_gdf
   \<and> (seg \<in> set sections_gdf \<and> geometry seg \<noteq> None \<longrightarrow>
        join_segment (precut_section_counts df) seg
          \<in> set (map_gdf (precut_section_counts df) sections_gdf))
   \<and> (geometry seg = None \<longrightarrow>
        seg \<notin> set (map pr_segment (map_gdf (precut_section_counts df) sections_gdf)))
   \<and> pr_segment (join_segment (precut_section_counts df) seg) = seg
   \<and> (k1 \<in> section_norm ` set df \<longrightarrow>
        pr_count (join_segment (precut_section_counts df) seg)
          = length (filter (\<lambda>r. section_norm r = k1) df))
   \<and> (k1 \<notin> section_norm ` set df \<and> k2 \<in> section_norm ` set df \<longrightarrow>
        pr_count (join_segment (precut_section_counts df) seg)
          = length (filter (\<lambda>r. section_norm r = k2) df))
   \<and> (k1 \<notin> section_norm ` set df \<and> k2 \<notin> section_norm ` set df \<longrightarrow>
        pr_count (join_segment (precut_section_counts df) seg) = 0
        \<and> pr_length (join_segment (precut_section_counts df) seg) = NaN
        \<and> precut_row_density (join_segment (precut_section_counts df) seg) = Inr (Num 0))"
proof (intro conjI impI)
  let ?counts = "precut_section_counts df"
  from assms have k1: "section_norm_key_1 seg = k1" and k2: "section_norm_key_2 seg = k2"
    by (simp_all add: section_norm_key_1_def section_norm_key_2_def separator_def)
  show segs: "map pr_segment (map_gdf ?counts sections_gdf)
     = filter (\<lambda>seg. geometry seg \<noteq> None) sections_gdf" by (rule map_gdf_segments)
  show seg: "pr_segment (join_segment ?counts seg) = seg" by (simp add: join_segment_def Let_def)
  show "join_segment ?counts seg \<in> set (map_gdf ?counts sections_gdf)"
    if "seg \<in> set sections_gdf \<and> geometry seg \<noteq> None"
    using that seg by (simp add: map_gdf_def)
  show "seg \<notin> set (map pr_segment (map_gdf ?counts sections_gdf))" if "geometry seg = None"
    unfolding segs using that by simp
  show "pr_count (join_segment ?counts seg) = length (filter (\<lambda>r. section_norm r = k1) df)"
    if "k1 \<in> section_norm ` set df"
    using that
    by (simp add: join_segment_def Let_def fillna_def merge_left_section_counts k1 k2)
  show "pr_count (join_segment ?counts seg) = length (filter (\<lambda>r. section_norm r = k2) df)"
    if "k1 \<notin> section_norm ` set df \<and> k2 \<in> section_norm ` set df"
    using that
    by (simp add: join_segment_def Let_def fillna_def merge_left_section_counts k1 k2)
  assume "k1 \<notin> section_norm ` set df \<and> k2 \<notin> section_norm ` set df"
  then show "pr_count (join_segment ?counts seg) = 0"
    "pr_length (join_segment ?counts seg) = NaN"
    by (simp_all add: join_segment_def Let_def fillna_def merge_left_section_counts k1 k2)
  then show "precut_row_density (join_segment ?counts seg) = Inr (Num 0)"
    by (simp add: precut_row_density_def count_per_km_precut_def notna_def)
qed

theorem precut_unmatched_segment_kept_witness:
  "pr_count (join_segment
         (precut_section_counts
            [scenario_precut_incident, scenario_precut_incident,
             scenario_precut_incident_forward])
         scenario_segment_mito_naka) = 1
   \<and> pr_count (join_segment
         (precut_section_counts
            [scenario_precut_incident, scenario_precut_incident,
             scenario_precut_incident_forward])
         scenario_segment_naka_mito) = 2
   \<and> pr_count (join_segment
         (precut_section_counts [scenario_precut_incident, scenario_precut_incident])
         scenario_segment_mito_naka) = 2
   \<and> pr_count (join_segment
         (precut_section_counts [scenario_precut_incident, scenario_precut_incident])
         scenario_segment_naka_hitachi) = 0
   \<and> precut_row_density (join_segment
         (precut_section_counts [scenario_precut_incident, scenario_precut_incident])
         scenario_segment_naka_hitachi) = Inr (Num 0)
   \<and> join_segment
         (precut_section_counts [scenario_precut_incident, scenario_precut_incident])
         scenario_segment_naka_hitachi
       \<in> set (map_gdf
         (precut_section_counts [scenario_precut_incident, scenario_precut_incident])
         [scenario_segment_mito_naka, scenario_segment_naka_hitachi])"
proof -
  let ?fwd = "[0x6C34, 0x6238, 0x49, 0x43, 0x301C, 0x90A3, 0x73C2, 0x49, 0x43] :: ustr"
  let ?rev = "[0x90A3, 0x73C2, 0x49, 0x43, 0x301C, 0x6C34, 0x6238, 0x49, 0x43] :: ustr"
  let ?nh = "[0x90A3, 0x73C2, 0x49, 0x43, 0x301C, 0x65E5, 0x7ACB, 0x49, 0x43] :: ustr"
  let ?hn = "[0x65E5, 0x7ACB, 0x49, 0x43, 0x301C, 0x90A3, 0x73C2, 0x49, 0x43] :: ustr"
  let ?df3 = "[scenario_precut_incident, scenario_precut_incident,
             scenario_precut_incident_forward]"
  let ?df2 = "[scenario_precut_incident, scenario_precut_incident]"
  let ?segs = "[scenario_segment_mito_naka, scenario_segment_naka_hitachi]"
  have mn1: "?fwd = normalize_name_precut (PyStr (start_IC scenario_segment_mito_naka))
      @ [0x301C] @ normalize_name_precut (PyStr (end_IC scenario_segment_mito_naka))"
    by (simp add: precut_eval norm_eval)
  have mn2: "?rev = normalize_name_precut (PyStr (end_IC scenario_segment_mito_naka))
      @ [0x301C] @ normalize_name_precut (PyStr (start_IC scenario_segment_mito_naka))"
    by (simp add: precut_eval norm_eval)
  have nm1: "?rev = normalize_name_precut (PyStr (start_IC scenario_segment_naka_mito))
      @ [0x301C] @ normalize_name_precut (PyStr (end_IC scenario_segment_naka_mito))"
    by (simp add: precut_eval norm_eval)
  have nm2: "?fwd = normalize_name_precut (PyStr (end_IC scenario_segment_naka_mito))
      @ [0x301C] @ normalize_name_precut (PyStr (start_IC scenario_segment_naka_mito))"
    by (simp add: precut_eval norm_eval)
  have nh1: "?nh = normalize_name_precut (PyStr (start_IC scenario_segment_naka_hitachi))
      @ [0x301C] @ normalize_name_precut (PyStr (end_IC scenario_segment_naka_hitachi))"
    by (simp add: precut_eval norm_eval)
  have nh2: "?hn = normalize_name_precut (PyStr (end_IC scenario_segment_naka_hitachi))
      @ [0x301C] @ normalize_name_precut (PyStr (start_IC scenario_segment_naka_hitachi))"
    by (simp add: precut_eval norm_eval)
  have sr: "section_norm scenario_precut_incident = ?rev"
    by (simp add: precut_eval norm_eval)
  have sf: "section_norm scenario_precut_incident_forward = ?fwd"
    by (simp add: precut_eval norm_eval)
  have h1: "?fwd \<in> section_norm ` set ?df3" by (simp add: sr sf)
  have h2: "?rev \<in> section_norm ` set ?df3" by (simp add: sr sf)
  have h3: "?fwd \<notin> section_norm ` set ?df2 \<and> ?rev \<in> section_norm ` set ?df2"
    by (simp add: sr)
  have h4: "?nh \<notin> section_norm ` set ?df2 \<and> ?hn \<notin> section_norm ` set ?df2"
    by (simp add: sr)
  have g: "scenario_segment_naka_hitachi \<in> set ?segs
      \<and> geometry scenario_segment_naka_hitachi \<noteq> None"
    by (simp add: scenario_segment_naka_hitachi_def)
  note t1 = precut_unmatched_segment_kept[OF mn1 mn2, where df = ?df3 and sections_gdf = ?segs]
  note t2 = precut_unmatched_segment_kept[OF nm1 nm2, where df = ?df3 and sections_gdf = ?segs]
  note t3 = precut_unmatched_segment_kept[OF mn1 mn2, where df = ?df2 and sections_gdf = ?segs]
  note t4 = precut_unmatched_segment_kept[OF nh1 nh2, where df = ?df2 and sections_gdf = ?segs]
  have a: "pr_count (join_segment (precut_section_counts ?df3) scenario_segment_mito_naka)
      = length (filter (\<lambda>r. section_norm r = ?fwd) ?df3)"
    by (rule t1[THEN conjunct2, THEN conjunct2, THEN conjunct2, THEN conjunct2,
          THEN conjunct1, THEN mp, OF h1])
  have b: "pr_count (join_segment (precut_section_counts ?df3) scenario_segment_naka_mito)
      = length (filter (\<lambda>r. section_norm r = ?rev) ?df3)"
    by (rule t2[THEN conjunct2, THEN conjunct2, THEN conjunct2, THEN conjunct2,
          THEN conjunct1, THEN mp, OF h2])
  have c: "pr_count (join_segment (precut_section_counts ?df2) scenario_segment_mito_naka)
      = length (filter (\<lambda>r. section_norm r = ?rev) ?df2)"
    by (rule t3[THEN conjunct2, THEN conjunct2, THEN conjunct2, THEN conjunct2,
          THEN conjunct2, THEN conjunct1, THEN mp, OF h3])
  note tu = t4[THEN conjunct2, THEN conjunct2, THEN conjunct2, THEN conjunct2,
          THEN conjunct2, THEN conjunct2, THEN mp, OF h4]
  have d: "pr_count (join_segment (precut_section_counts ?df2) scenario_segment_naka_hitachi)
      = 0"
    by (rule tu[THEN conjunct1])
  have e: "precut_row_density
      (join_segment (precut_section_counts ?df2) scenario_segment_naka_hitachi) = Inr (Num 0)"
    by (rule tu[THEN conjunct2, THEN conjunct2])
  have f: "join_segment (precut_section_counts ?df2) scenario_segment_naka_hitachi
      \<in> set (map_gdf (precut_section_counts ?df2) ?segs)"
    by (rule t4[THEN conjunct2, THEN conjunct1, THEN mp, OF g])
  from a have a': "pr_count (join_segment (precut_section_counts ?df3)
      scenario_segment_mito_naka) = 1" by (simp add: sr sf)
  from b have b': "pr_count (join_segment (precut_section_counts ?df3)
      scenario_segment_naka_mito) = 2" by (simp add: sr sf)
  from c have c': "pr_count (join_segment (precut_section_counts ?df2)
      scenario_segment_mito_naka) = 2" by (simp add: sr)
  show ?thesis using a' b' c' d e f by - (intro conjI; assumption)
qed

section \<open>Aggregation and normalized keys\<close>

lemma section_counts_keys:
  "map (\<lambda>row. (sc_route row, sc_section row)) (section_counts df) = group_keys df"
  by (simp add: section_counts_def Let_def comp_def)

lemma distinct_group_keys: "distinct (group_keys df)"
  by (simp add: group_keys_def)

lemma section_counts_count:
  "row \<in> set (section_counts df) \<Longrightarrow>
   sc_count row = length (filter (\<lambda>r. key_cols r = (sc_route row, sc_section row)) df)"
  by (auto simp: section_counts_def Let_def group_rows_def)

lemma section_counts_twice: "map sc_count (section_counts [r, r]) = [2]"
  by (simp add: section_counts_def Let_def group_keys_def group_rows_def)

lemma get_map_data_count:
  assumes "m \<in> set (get_map_data hav dst truthy sc ic rg)"
  shows "\<exists>row\<in>set sc. mr_count m = sc_count row"
proof -
  from get_map_data_rows[OF assms] obtain row where row: "row \<in> set sc"
    "resolve_row hav dst truthy ic rg
       (route_name_map (py_unique (map sc_route sc)) (map fst rg)) row = Some m" by blast
  from resolve_row_Some[OF row(2)] have "mr_count m = sc_count row" by auto
  with row(1) show ?thesis by blast
qed

lemma scenario_map_wide:
  "get_map_data scenario_hav scenario_dst scenario_truthy
     (section_counts [scenario_incident, scenario_incident_wide])
     scenario_ic_locations scenario_route_geometries =
   [\<lparr> mr_route = [0x5E38, 0x78D0, 0x9053],
      mr_section = [0x6C34, 0x6238, 0x49, 0x43, 0x301C, 0x90A3, 0x73C2, 0x49, 0x43],
      mr_count = 1, mr_length = 10,
      start_lon = 140, start_lat = 36, end_lon = 141, end_lat = 37 \<rparr>,
    \<lparr> mr_route = [0x5E38, 0x78D0, 0x9053],
      mr_section = [0x6C34, 0x6238, 0xFF29, 0xFF23, 0x301C, 0x90A3, 0x73C2, 0xFF29, 0xFF23],
      mr_count = 1, mr_length = 10,
      start_lon = 140, start_lat = 36, end_lon = 141, end_lat = 37 \<rparr>]"
  unfolding scenario_counts_wide
  by (simp add: get_map_data_def py_unique_def route_name_map_def resolve_row_def
      List.map_filter_def dict_get_list_def valid_candidates_def select_best_pair_def
      best_pair_step_def pair_dist_def below_def DISTANCE_THRESHOLD_M_def
      round_double_def float_lt_def
      scenario_hav_def scenario_dst_def scenario_truthy_def scenario_ic_locations_def
      scenario_route_geometries_def mito_def naka_def sublist_Cons_right norm_eval)

text \<open>
  Claim C2, as stated: records whose route name and section label have equal normalized
  forms fall into one count group and one resolved segment. The aggregation groups by
  the raw text of the two columns: the same section written once with half-width and
  once with full-width \<open>IC\<close> has equal normalized keys, and yields two map rows with
  count 1 each and the same endpoints.
\<close>

theorem raw_text_splits_count_groups:
  "normalize_name (PyStr (route_name scenario_incident)) True
     = normalize_name (PyStr (route_name scenario_incident_wide)) True
   \<and> map start_norm (section_counts [scenario_incident, scenario_incident_wide])
     = [[0x6C34, 0x6238], [0x6C34, 0x6238]]
   \<and> map end_norm (section_counts [scenario_incident, scenario_incident_wide])
     = [[0x90A3, 0x73C2], [0x90A3, 0x73C2]]
   \<and> map sc_count (section_counts [scenario_incident, scenario_incident_wide]) = [1, 1]
   \<and> map mr_count (get_map_data scenario_hav scenario_dst scenario_truthy
        (section_counts [scenario_incident, scenario_incident_wide])
        scenario_ic_locations scenario_route_geometries) = [1, 1]
   \<and> map endpoints (get_map_data scenario_hav scenario_dst scenario_truthy
        (section_counts [scenario_incident, scenario_incident_wide])
        scenario_ic_locations scenario_route_geometries)
     = [(140, 36, 141, 37), (140, 36, 141, 37)]"
  unfolding scenario_map_wide unfolding scenario_counts_wide
  by (simp add: endpoints_def scenario_incident_def scenario_incident_wide_def)

text \<open>
  Claim C2, amended: rows with equal ROUTE-normalized route names and equal
  PLACE-normalized start and end labels resolve to the same endpoints (or both fail).
  The count groups are formed by the raw route name and section label: the groups have
  distinct raw keys, the count of a group is the number of records with its raw key,
  and two identical records give one row with count 2 and at most one map entry,
  which carries count 2.
\<close>

theorem resolution_by_normalized_keys:
  "(r1 \<in> set sc \<and> r2 \<in> set sc
      \<and> normalize_name (PyStr (sc_route r1)) True = normalize_name (PyStr (sc_route r2)) True
      \<and> start_norm r1 = start_norm r2 \<and> end_norm r1 = end_norm r2 \<longrightarrow>
      map_option endpoints (resolve_row hav dst truthy ic rg
          (route_name_map (py_unique (map sc_route sc)) (map fst rg)) r1)
      = map_option endpoints (resolve_row hav dst truthy ic rg
          (route_name_map (py_unique (map sc_route sc)) (map fst rg)) r2))
   \<and> distinct (map (\<lambda>row. (sc_route row, sc_section row)) (section_counts df))
   \<and> (\<forall>row\<in>set (section_counts df).
        sc_count row = length (filter (\<lambda>r. key_cols r = (sc_route row, sc_section row)) df))
   \<and> map sc_count (section_counts [r, r]) = [2]
   \<and> length (get_map_data hav dst truthy (section_counts [r, r]) ic rg) \<le> 1
   \<and> (\<forall>m\<in>set (get_map_data hav dst truthy (section_counts [r, r]) ic rg). mr_count m = 2)"
proof (intro conjI impI ballI)
  assume a: "r1 \<in> set sc \<and> r2 \<in> set sc
      \<and> normalize_name (PyStr (sc_route r1)) True = normalize_name (PyStr (sc_route r2)) True
      \<and> start_norm r1 = start_norm r2 \<and> end_norm r1 = end_norm r2"
  let ?nm = "route_name_map (py_unique (map sc_route sc)) (map fst rg)"
  from a have in1: "sc_route r1 \<in> set (py_unique (map sc_route sc))"
    and in2: "sc_route r2 \<in> set (py_unique (map sc_route sc))"
    by (simp_all add: set_py_unique)
  from a have eq: "normalize_name (PyStr (sc_route r1)) True
      = normalize_name (PyStr (sc_route r2)) True" by blast
  have "?nm (sc_route r1) = ?nm (sc_route r2)"
    unfolding route_name_map_lookup using in1 in2 eq by (simp only: if_True)
  with a show "map_option endpoints (resolve_row hav dst truthy ic rg ?nm r1)
      = map_option endpoints (resolve_row hav dst truthy ic rg ?nm r2)"
    by (intro resolve_row_endpoints_cong) blast+
next
  show "distinct (map (\<lambda>row. (sc_route row, sc_section row)) (section_counts df))"
    unfolding section_counts_keys by (rule distinct_group_keys)
next
  fix row assume "row \<in> set (section_counts df)"
  then show "sc_count row = length (filter (\<lambda>r. key_cols r = (sc_route row, sc_section row)) df)"
    by (rule section_counts_count)
next
  show "map sc_count (section_counts [r, r]) = [2]" by (rule section_counts_twice)
next
  have "length (section_counts [r, r]) = 1"
    using arg_cong[OF section_counts_twice[of r], of length] by simp
  moreover have "length (get_map_data hav dst truthy (section_counts [r, r]) ic rg)
      \<le> length (section_counts [r, r])"
    by (simp add: get_map_data_def Let_def length_map_filter_le)
  ultimately show "length (get_map_data hav dst truthy (section_counts [r, r]) ic rg) \<le> 1"
    by simp
next
  fix m assume "m \<in> set (get_map_data hav dst truthy (section_counts [r, r]) ic rg)"
  from get_map_data_count[OF this] obtain row where
    "row \<in> set (section_counts [r, r])" "mr_count m = sc_count row" by blast
  moreover have "\<forall>row\<in>set (section_counts [r, r]). sc_count row = 2"
    using section_counts_twice[of r] by (metis (no_types, lifting) list.set_map image_eqI
        list.simps(15) empty_set singletonD insertE empty_iff)
  ultimately show "mr_count m = 2" by simp
qed

theorem resolution_by_normalized_keys_witness:
  "map_option endpoints (resolve_row scenario_hav scenario_dst scenario_truthy
       scenario_ic_locations scenario_route_geometries
       (route_name_map
          (py_unique (map sc_route (section_counts [scenario_incident, scenario_incident_wide])))
          (map fst scenario_route_geometries))
       (section_counts [scenario_incident, scenario_incident_wide] ! 0))
   = map_option endpoints (resolve_row scenario_hav scenario_dst scenario_truthy
       scenario_ic_locations scenario_route_geometries
       (route_name_map
          (py_unique (map sc_route (section_counts [scenario_incident, scenario_incident_wide])))
          (map fst scenario_route_geometries))
       (section_counts [scenario_incident, scenario_incident_wide] ! 1))
   \<and> map sc_count (section_counts [scenario_incident, scenario_incident]) = [2]
   \<and> map mr_count (get_map_data scenario_hav scenario_dst scenario_truthy
        (section_counts [scenario_incident, scenario_incident])
        scenario_ic_locations scenario_route_geometries) = [2]
   \<and> length (get_map_data scenario_hav scenario_dst scenario_truthy
        (section_counts [scenario_incident, scenario_incident])
        scenario_ic_locations scenario_route_geometries) \<le> 1"
proof -
  let ?sc = "section_counts [scenario_incident, scenario_incident_wide]"
  have h: "?sc ! 0 \<in> set ?sc \<and> ?sc ! 1 \<in> set ?sc
      \<and> normalize_name (PyStr (sc_route (?sc ! 0))) True
          = normalize_name (PyStr (sc_route (?sc ! 1))) True
      \<and> start_norm (?sc ! 0) = start_norm (?sc ! 1)
      \<and> end_norm (?sc ! 0) = end_norm (?sc ! 1)"
    unfolding scenario_counts_wide by simp
  note t = resolution_by_normalized_keys[where hav = scenario_hav and dst = scenario_dst
       and truthy = scenario_truthy and ic = scenario_ic_locations
       and rg = scenario_route_geometries and r = scenario_incident]
  have a: "map_option endpoints (resolve_row scenario_hav scenario_dst scenario_truthy
       scenario_ic_locations scenario_route_geometries
       (route_name_map (py_unique (map sc_route ?sc)) (map fst scenario_route_geometries))
       (?sc ! 0))
   = map_option endpoints (resolve_row scenario_hav scenario_dst scenario_truthy
       scenario_ic_locations scenario_route_geometries
       (route_name_map (py_unique (map sc_route ?sc)) (map fst scenario_route_geometries))
       (?sc ! 1))"
    by (rule t[where sc = ?sc and ?r1.0 = "?sc ! 0" and ?r2.0 = "?sc ! 1",
          THEN conjunct1, THEN mp, OF h])
  have b: "map sc_count (section_counts [scenario_incident, scenario_incident]) = [2]"
    by (rule t[THEN conjunct2, THEN conjunct2, THEN conjunct2, THEN conjunct1])
  have c: "map mr_count (get_map_data scenario_hav scenario_dst scenario_truthy
        (section_counts [scenario_incident, scenario_incident])
        scenario_ic_locations scenario_route_geometries) = [2]"
    unfolding scenario_map by simp
  have d: "length (get_map_data scenario_hav scenario_dst scenario_truthy
        (section_counts [scenario_incident, scenario_incident])
        scenario_ic_locations scenario_route_geometries) \<le> 1"
    by (rule t[THEN conjunct2, THEN conjunct2, THEN conjunct2, THEN conjunct2, THEN conjunct1])
  show ?thesis using a b c d by - (intro conjI; assumption)
qed

end
